theory Spec2Isabelle
  imports Main "HOL-Library.Sublist"
begin

section \<open>JavaScript strings and errors\<close>

text \<open>
  A JavaScript string is a sequence of UTF-16 code units; it is modelled as the list of
  these code units. String literals of the source that are not plain ASCII are written out
  as their code units; ASCII literals are written with \<open>u\<close>.
\<close>

type_synonym jsstring = "nat list"

definition u :: "string \<Rightarrow> jsstring" where
  "u s = map of_char s"

text \<open>
  \<open>a || b\<close> on a possibly missing string: the empty string and \<open>undefined\<close> are both falsy.
\<close>

definition truthy :: "jsstring option \<Rightarrow> bool" where
  "truthy v = (case v of None \<Rightarrow> False | Some s \<Rightarrow> s \<noteq> [])"

definition or_else :: "jsstring option \<Rightarrow> jsstring \<Rightarrow> jsstring" where
  "or_else v d = (case v of None \<Rightarrow> d | Some s \<Rightarrow> if s = [] then d else s)"

text \<open>
  Every error the modelled code raises itself is an \<open>Error\<close> with a message. The engine
  raises \<open>SyntaxError\<close> from \<open>JSON.parse\<close> and \<open>TypeError\<close> on a property read of
  \<open>undefined\<close> or \<open>null\<close>; their messages depend on the engine and are left out.
\<close>

datatype js_error = Error jsstring | SyntaxError | TypeError

section \<open>KieAIClient (src/js/modules/api.js)\<close>

text \<open>
  The messages of the errors the module raises, as code units: the default failure message
  of line 107, the timeout of line 122, the missing key of lines 239 and 248, the missing
  URL of line 274, and the table of lines 141-151 with its last resort.
\<close>

definition msg_task_failed :: jsstring where
  "msg_task_failed =
    [0x4EFB, 0x52A1, 0x6267, 0x884C, 0x5931, 0x8D25]"

definition msg_timeout :: jsstring where
  "msg_timeout =
    [0x4EFB, 0x52A1, 0x8D85, 0x65F6, 0xFF0C, 0x8BF7, 0x7A0D, 0x540E, 0x91CD, 0x8BD5]"

definition msg_not_configured :: jsstring where
  "msg_not_configured =
    [0x41, 0x50, 0x49, 0x20, 0x4B, 0x65, 0x79, 0x672A, 0x914D, 0x7F6E, 0xFF0C, 0x8BF7, 0x5148,
     0x8BBE, 0x7F6E, 0x41, 0x50, 0x49, 0x20, 0x4B, 0x65, 0x79]"

definition msg_missing_result :: jsstring where
  "msg_missing_result =
    [0x56FE, 0x7247, 0x751F, 0x6210, 0x5931, 0x8D25, 0xFF0C, 0x672A, 0x83B7, 0x53D6, 0x5230,
     0x56FE, 0x7247, 0x55, 0x52, 0x4C]"

definition msg_400 :: jsstring where
  "msg_400 =
    [0x8BF7, 0x6C42, 0x53C2, 0x6570, 0x9519, 0x8BEF]"

definition msg_401 :: jsstring where
  "msg_401 =
    [0x41, 0x50, 0x49, 0x20, 0x4B, 0x65, 0x79, 0x65E0, 0x6548, 0xFF0C, 0x8BF7, 0x68C0, 0x67E5,
     0x914D, 0x7F6E]"

definition msg_402 :: jsstring where
  "msg_402 =
    [0x8D26, 0x6237, 0x4F59, 0x989D, 0x4E0D, 0x8DB3]"

definition msg_404 :: jsstring where
  "msg_404 =
    [0x8D44, 0x6E90, 0x672A, 0x627E, 0x5230]"

definition msg_422 :: jsstring where
  "msg_422 =
    [0x53C2, 0x6570, 0x9A8C, 0x8BC1, 0x5931, 0x8D25]"

definition msg_429 :: jsstring where
  "msg_429 =
    [0x8BF7, 0x6C42, 0x8FC7, 0x4E8E, 0x9891, 0x7E41, 0xFF0C, 0x8BF7, 0x7A0D, 0x540E, 0x91CD,
     0x8BD5]"

definition msg_500 :: jsstring where
  "msg_500 =
    [0x670D, 0x52A1, 0x5668, 0x9519, 0x8BEF, 0xFF0C, 0x8BF7, 0x7A0D, 0x540E, 0x91CD, 0x8BD5]"

definition msg_unknown :: jsstring where
  "msg_unknown =
    [0x672A, 0x77E5, 0x9519, 0x8BEF]"

text \<open>\<open>getErrorMessage\<close>: \<open>errorMap[code] || message || '...'\<close>.\<close>

definition errorMap :: "int \<Rightarrow> jsstring option" where
  "errorMap code =
     (if code = 400 then Some msg_400
      else if code = 401 then Some msg_401
      else if code = 402 then Some msg_402
      else if code = 404 then Some msg_404
      else if code = 422 then Some msg_422
      else if code = 429 then Some msg_429
      else if code = 500 then Some msg_500
      else None)"

definition getErrorMessage :: "int \<Rightarrow> jsstring option \<Rightarrow> jsstring" where
  "getErrorMessage code message =
     (if truthy (errorMap code) then or_else (errorMap code) msg_unknown
      else or_else message msg_unknown)"

text \<open>
  What the remote answers to one request: either the request itself fails (\<open>fetch\<close> or
  \<open>response.json()\<close> rejects with some error), or a JSON envelope \<open>{code, msg, data}\<close>
  arrives, whose \<open>data\<close> may be missing. For \<open>createTask\<close> the \<open>data\<close> object is
  kept as the \<open>taskId\<close> it carries, for \<open>queryTask\<close> as the record \<open>task_data\<close>.
\<close>

record 'a envelope =
  code :: int
  msg :: "jsstring option"
  data :: "'a option"

datatype 'a reply = Rejected js_error | Responded "'a envelope"

text \<open>
  \<open>data.resultJson\<close> is a string that \<open>generateImage\<close> hands to \<open>JSON.parse\<close>. The model
  keeps what \<open>JSON.parse\<close> makes of it: the field is missing (\<open>JSON.parse(undefined)\<close>
  raises a SyntaxError), it is not JSON text (SyntaxError), it parses to \<open>null\<close>, or it
  parses to a value whose \<open>resultUrls\<close> is missing (\<open>None\<close>) or a list of strings.
\<close>

datatype result_json =
  Missing | Unparsable | ParsedNull | ParsedObject "jsstring list option"

record task_data =
  t_state :: jsstring
  failMsg :: "jsstring option"
  resultJson :: result_json

definition createTask :: "jsstring reply \<Rightarrow> js_error + jsstring envelope" where
  "createTask r =
     (case r of
        Rejected e \<Rightarrow> Inl e
      | Responded d \<Rightarrow>
          if code d \<noteq> 200 then Inl (Error (getErrorMessage (code d) (msg d))) else Inr d)"

definition queryTask :: "task_data reply \<Rightarrow> js_error + task_data envelope" where
  "queryTask r =
     (case r of
        Rejected e \<Rightarrow> Inl e
      | Responded d \<Rightarrow>
          if code d \<noteq> 200 then Inl (Error (getErrorMessage (code d) (msg d))) else Inr d)"

text \<open>
  The payload handed to \<open>onProgress\<close>. The callback is taken to be a recorder: the model
  keeps the list of payloads it was called with, in order, and the callback does not raise.
\<close>

record progress =
  p_state :: jsstring
  p_attempts :: nat
  p_maxAttempts :: nat

text \<open>
  How the \<open>try\<close> block of one loop iteration ends: with \<open>return result\<close>, with a raised
  error (which the \<open>catch\<close> clause of the same iteration receives), or by running to its
  end (the wait of \<open>interval\<close> milliseconds is not modelled).
\<close>

datatype completion = Return "task_data envelope" | Throw js_error | Normal

definition poll_try ::
  "task_data reply \<Rightarrow> nat \<Rightarrow> nat \<Rightarrow> bool \<Rightarrow> progress list \<Rightarrow> completion \<times> progress list" where
  "poll_try r attempts maxAttempts onProgress calls =
     (case queryTask r of
        Inl e \<Rightarrow> (Throw e, calls)
      | Inr result \<Rightarrow>
          (case data result of
             None \<Rightarrow> (Throw TypeError, calls)
           | Some d \<Rightarrow>
               let calls' =
                 (if onProgress
                  then calls @ [\<lparr>p_state = t_state d, p_attempts = attempts + 1,
                                 p_maxAttempts = maxAttempts\<rparr>]
                  else calls)
               in if t_state d = u ''success'' then (Return result, calls')
                  else if t_state d = u ''fail''
                  then (Throw (Error (or_else (failMsg d) msg_task_failed)), calls')
                  else (Normal, calls')))"

text \<open>
  The result of a run: what the caller receives, how many \<open>queryTask\<close> requests were
  issued, and the calls made to \<open>onProgress\<close>.
\<close>

record 'a finished =
  outcome :: "js_error + 'a"
  requests :: nat
  progress_calls :: "progress list"

text \<open>
  The \<open>while\<close> loop of \<open>pollUntilComplete\<close>. \<open>remote i\<close> is the answer to the \<open>i\<close>-th
  status request (counted from 0); \<open>reqs\<close> counts the requests issued so far.
\<close>

function pollLoop ::
  "(nat \<Rightarrow> task_data reply) \<Rightarrow> nat \<Rightarrow> bool \<Rightarrow> nat \<Rightarrow> nat \<Rightarrow> progress list
     \<Rightarrow> task_data envelope finished" where
  "pollLoop remote maxAttempts onProgress attempts reqs calls =
     (if attempts < maxAttempts then
        (case poll_try (remote reqs) attempts maxAttempts onProgress calls of
           (Return result, calls') \<Rightarrow>
             \<lparr>outcome = Inr result, requests = reqs + 1, progress_calls = calls'\<rparr>
         | (Throw e, calls') \<Rightarrow>
             if attempts = maxAttempts - 1
             then \<lparr>outcome = Inl e, requests = reqs + 1, progress_calls = calls'\<rparr>
             else pollLoop remote maxAttempts onProgress (attempts + 1) (reqs + 1) calls'
         | (Normal, calls') \<Rightarrow>
             pollLoop remote maxAttempts onProgress (attempts + 1) (reqs + 1) calls')
      else \<lparr>outcome = Inl (Error msg_timeout), requests = reqs, progress_calls = calls\<rparr>)"
  by pat_completeness auto
termination
  by (relation "measure (\<lambda>(remote, maxAttempts, onProgress, attempts, reqs, calls).
        maxAttempts - attempts)") auto

declare pollLoop.simps [simp del]

definition pollUntilComplete ::
  "(nat \<Rightarrow> task_data reply) \<Rightarrow> nat \<Rightarrow> bool \<Rightarrow> task_data envelope finished" where
  "pollUntilComplete remote maxAttempts onProgress =
     pollLoop remote maxAttempts onProgress 0 0 []"

section \<open>APIManager (src/js/modules/api.js)\<close>

text \<open>
  The surroundings of \<open>generateImage\<close>: the key that \<open>getApiKey\<close> reads from local storage
  (\<open>None\<close> when nothing is stored or decoding fails), whether \<open>this.client\<close> is set, the
  remote's answer to \<open>createTask\<close> for a prompt, and its answers to the status requests
  for a task id. The merged options only travel in the request body.
\<close>

record api_env =
  stored_key :: "jsstring option"
  client :: bool
  create_reply :: "jsstring \<Rightarrow> jsstring reply"
  poll_replies :: "jsstring \<Rightarrow> nat \<Rightarrow> task_data reply"

definition getApiKey :: "api_env \<Rightarrow> jsstring option" where
  "getApiKey env = stored_key env"

definition isConfigured :: "api_env \<Rightarrow> bool" where
  "isConfigured env = truthy (getApiKey env)"

definition failed :: "js_error \<Rightarrow> nat \<Rightarrow> progress list \<Rightarrow> jsstring finished" where
  "failed e n calls = \<lparr>outcome = Inl e, requests = n, progress_calls = calls\<rparr>"

text \<open>Lines 269-277: parse the result and take the first URL.\<close>

definition firstUrl :: "task_data envelope \<Rightarrow> js_error + jsstring" where
  "firstUrl result =
     (case data result of
        None \<Rightarrow> Inl TypeError
      | Some d \<Rightarrow>
          (case resultJson d of
             Missing \<Rightarrow> Inl SyntaxError
           | Unparsable \<Rightarrow> Inl SyntaxError
           | ParsedNull \<Rightarrow> Inl TypeError
           | ParsedObject None \<Rightarrow> Inl TypeError
           | ParsedObject (Some []) \<Rightarrow> Inl (Error msg_missing_result)
           | ParsedObject (Some (imageUrl # rest)) \<Rightarrow>
               if imageUrl = [] then Inl (Error msg_missing_result) else Inr imageUrl))"

definition generateImage :: "api_env \<Rightarrow> jsstring \<Rightarrow> bool \<Rightarrow> jsstring finished" where
  "generateImage env prompt onProgress =
     (if \<not> isConfigured env then failed (Error msg_not_configured) 0 []
      else if \<not> client env \<and> \<not> truthy (getApiKey env)
      then failed (Error msg_not_configured) 0 []
      else
        (case createTask (create_reply env prompt) of
           Inl e \<Rightarrow> failed e 0 []
         | Inr createResult \<Rightarrow>
             (case data createResult of
                None \<Rightarrow> failed TypeError 0 []
              | Some taskId \<Rightarrow>
                  let r = pollUntilComplete (poll_replies env taskId) 30 onProgress
                  in (case outcome r of
                        Inl e \<Rightarrow> failed e (requests r) (progress_calls r)
                      | Inr result \<Rightarrow>
                          \<lparr>outcome = firstUrl result, requests = requests r,
                           progress_calls = progress_calls r\<rparr>))))"

section \<open>VocabularyGenerator (business logic module)\<close>

record vocabulary_entry =
  pinyin :: jsstring
  chinese :: jsstring

text \<open>
  The \<open>vocabularies\<close> object of a theme. Each list may be missing: the source reads every
  one of them through \<open>|| []\<close>.
\<close>

record vocabularies =
  characters :: "vocabulary_entry list option"
  items :: "vocabulary_entry list option"
  animals :: "vocabulary_entry list option"
  facilities :: "vocabulary_entry list option"
  environment :: "vocabulary_entry list option"

record theme =
  name :: jsstring
  titles :: "jsstring list"
  vocabs :: vocabularies

text \<open>
  A plain JavaScript object with string keys: its properties in the order in which they were
  created (for the catalog, the order of the JSON text), with distinct keys.
\<close>

type_synonym 'v js_object = "(jsstring \<times> 'v) list"

text \<open>
  \<open>Object.entries\<close> does not follow creation order for every key: keys that are array
  indices (the canonical decimal form of an integer below \<open>2^32 - 1 = 4294967295\<close>) come
  first, in ascending numeric order, and the other keys follow in creation order.
\<close>

definition is_digit :: "nat \<Rightarrow> bool" where
  "is_digit c = (0x30 \<le> c \<and> c \<le> 0x39)"

definition index_value :: "jsstring \<Rightarrow> nat" where
  "index_value k = foldl (\<lambda>a c. 10 * a + (c - 0x30)) 0 k"

definition is_array_index :: "jsstring \<Rightarrow> bool" where
  "is_array_index k =
     (k \<noteq> [] \<and> list_all is_digit k \<and> (k = [0x30] \<or> hd k \<noteq> 0x30) \<and>
      index_value k < 4294967295)"

definition Object_entries :: "'v js_object \<Rightarrow> (jsstring \<times> 'v) list" where
  "Object_entries obj =
     sort_key (\<lambda>(k, v). index_value k) (filter (\<lambda>(k, v). is_array_index k) obj) @
     filter (\<lambda>(k, v). \<not> is_array_index k) obj"

text \<open>\<open>s.includes(q)\<close>: \<open>q\<close> occurs in \<open>s\<close> as a contiguous run of code units.\<close>

fun js_includes :: "jsstring \<Rightarrow> jsstring \<Rightarrow> bool" where
  "js_includes [] q = (q = [])"
| "js_includes (c # cs) q = (prefix q (c # cs) \<or> js_includes cs q)"

text \<open>The two loops of \<open>getThemeByName\<close> (lines 191-195 and 198-202).\<close>

fun exact_loop :: "(jsstring \<times> theme) list \<Rightarrow> jsstring \<Rightarrow> theme option" where
  "exact_loop [] themeName = None"
| "exact_loop ((key, t) # rest) themeName =
     (if name t = themeName then Some t else exact_loop rest themeName)"

fun fuzzy_loop :: "(jsstring \<times> theme) list \<Rightarrow> jsstring \<Rightarrow> theme option" where
  "fuzzy_loop [] themeName = None"
| "fuzzy_loop ((key, t) # rest) themeName =
     (if js_includes (name t) themeName \<or> js_includes themeName (name t) then Some t
      else fuzzy_loop rest themeName)"

text \<open>\<open>this.themes\<close> is \<open>null\<close> until the catalog has been loaded.\<close>

definition getThemeByName :: "theme js_object option \<Rightarrow> jsstring \<Rightarrow> theme option" where
  "getThemeByName themes themeName =
     (case themes of
        None \<Rightarrow> None
      | Some obj \<Rightarrow>
          (case exact_loop (Object_entries obj) themeName of
             Some t \<Rightarrow> Some t
           | None \<Rightarrow> fuzzy_loop (Object_entries obj) themeName))"

definition generateDynamicVocabulary :: "jsstring \<Rightarrow> vocabularies" where
  "generateDynamicVocabulary t =
     \<lparr>characters = Some
        [\<lparr>pinyin = [0x72, 0xE9, 0x6E], chinese = [0x4EBA]\<rparr>,
         \<lparr>pinyin = [0x68, 0xE1, 0x69, 0x20, 0x7A, 0x69], chinese = [0x5B69, 0x5B50]\<rparr>],
      items = Some
        [\<lparr>pinyin = [0x77, 0xF9, 0x20, 0x70, 0x1D0, 0x6E], chinese = [0x7269, 0x54C1]\<rparr>,
         \<lparr>pinyin = [0x77, 0xE1, 0x6E, 0x20, 0x6A, 0xF9], chinese = [0x73A9, 0x5177]\<rparr>],
      animals = None,
      facilities = Some
        [\<lparr>pinyin = [0x73, 0x68, 0xE8, 0x20, 0x73, 0x68, 0x12B], chinese = [0x8BBE, 0x65BD]\<rparr>],
      environment = Some
        [\<lparr>pinyin = [0x68, 0x75, 0xE1, 0x6E, 0x20, 0x6A, 0xEC, 0x6E, 0x67],
          chinese = [0x73AF, 0x5883]\<rparr>]\<rparr>"

definition generateVocabulary :: "theme js_object option \<Rightarrow> jsstring \<Rightarrow> vocabularies" where
  "generateVocabulary themes t =
     (case getThemeByName themes t of
        Some themeData \<Rightarrow> vocabs themeData
      | None \<Rightarrow> generateDynamicVocabulary t)"

text \<open>
  The lookup as section 4.1 of the specification words it, over a catalog given in the
  order in which it is to be searched: an exact match on the display name comes first;
  failing that, the first theme whose name contains the query or is contained in it;
  failing that, none. It is stated with \<open>find\<close> and \<open>sublist\<close>, independently of the loops
  above.
\<close>

definition findTheme_spec :: "theme js_object \<Rightarrow> jsstring \<Rightarrow> theme option" where
  "findTheme_spec catalog query =
     (case find (\<lambda>t. name t = query) (map snd catalog) of
        Some t \<Rightarrow> Some t
      | None \<Rightarrow>
          find (\<lambda>t. sublist query (name t) \<or> sublist (name t) query) (map snd catalog))"

section \<open>PromptGenerator (business logic module)\<close>

text \<open>
  \<open>String.prototype.replace\<close> with a global regular expression that is a literal text
  without capture groups, and a replacement string. The replacement string is not inserted
  as it is: \<open>$$\<close> stands for \<open>$\<close>, \<open>$&\<close> for the matched text, \<open>$`\<close> for the part of
  the subject before the match and \<open>$'\<close> for the part after it. With no capture groups
  every other \<open>$\<close> is literal. (\<open>0x24\<close> is \<open>$\<close>, \<open>0x26\<close> is \<open>&\<close>, \<open>0x60\<close> the backquote
  and \<open>0x27\<close> the quote.)
\<close>

fun getSubstitution :: "jsstring \<Rightarrow> jsstring \<Rightarrow> jsstring \<Rightarrow> jsstring \<Rightarrow> jsstring" where
  "getSubstitution matched before after [] = []"
| "getSubstitution matched before after [c] = [c]"
| "getSubstitution matched before after (c # d # rest) =
     (if c = 0x24 \<and> d = 0x24 then 0x24 # getSubstitution matched before after rest
      else if c = 0x24 \<and> d = 0x26 then matched @ getSubstitution matched before after rest
      else if c = 0x24 \<and> d = 0x60 then before @ getSubstitution matched before after rest
      else if c = 0x24 \<and> d = 0x27 then after @ getSubstitution matched before after rest
      else c # getSubstitution matched before after (d # rest))"

text \<open>
  The matches are found in the subject \<open>S\<close> from left to right, each search starting where
  the previous match ended; \<open>pos\<close> is the position in \<open>S\<close> of the part still to be
  scanned. The patterns of the source are non-empty texts.
\<close>

function replaceFrom :: "jsstring \<Rightarrow> jsstring \<Rightarrow> jsstring \<Rightarrow> nat \<Rightarrow> jsstring \<Rightarrow> jsstring" where
  "replaceFrom pat rep S pos [] = []"
| "replaceFrom pat rep S pos (c # cs) =
     (if pat \<noteq> [] \<and> prefix pat (c # cs)
      then getSubstitution pat (take pos S) (drop (pos + length pat) S) rep @
           replaceFrom pat rep S (pos + length pat) (drop (length pat) (c # cs))
      else c # replaceFrom pat rep S (pos + 1) cs)"
  by pat_completeness auto
termination
  by (relation "measure (\<lambda>(pat, rep, S, pos, rest). length rest)") (auto simp: neq_Nil_conv)

declare replaceFrom.simps [simp del]

definition replace_g :: "jsstring \<Rightarrow> jsstring \<Rightarrow> jsstring \<Rightarrow> jsstring" where
  "replace_g pat rep S = replaceFrom pat rep S 0 S"

text \<open>
  The template of lines 273-322, cut at its placeholders: \<open>seg0\<close> to \<open>seg9\<close> are the texts
  between them. A line feed is \<open>0x0A\<close>.
\<close>

definition ph_theme :: jsstring where
  "ph_theme =
    [0x7B, 0x7B, 0x4E3B, 0x9898, 0x2F, 0x573A, 0x666F, 0x7D, 0x7D]"

definition ph_title :: jsstring where
  "ph_title =
    [0x7B, 0x7B, 0x6807, 0x9898, 0x7D, 0x7D]"

definition ph_characters :: jsstring where
  "ph_characters =
    [0x7B, 0x7B, 0x6838, 0x5FC3, 0x89D2, 0x8272, 0x4E0E, 0x8BBE, 0x65BD, 0x7D, 0x7D]"

definition ph_items :: jsstring where
  "ph_items =
    [0x7B, 0x7B, 0x5E38, 0x89C1, 0x7269, 0x54C1, 0x5DE5, 0x5177, 0x7D, 0x7D]"

definition ph_environment :: jsstring where
  "ph_environment =
    [0x7B, 0x7B, 0x73AF, 0x5883, 0x4E0E, 0x88C5, 0x9970, 0x7D, 0x7D]"

definition seg0 :: jsstring where
  "seg0 =
    [0x8BF7, 0x751F, 0x6210, 0x4E00, 0x5F20, 0x513F, 0x7AE5, 0x8BC6, 0x5B57, 0x5C0F, 0x62A5,
     0x300A]"

definition seg1 :: jsstring where
  "seg1 =
    [0x300B, 0xFF0C, 0x7AD6, 0x7248, 0x20, 0x41, 0x34, 0xFF0C, 0x5B66, 0x4E60, 0x5C0F, 0x62A5,
     0x7248, 0x5F0F, 0xFF0C, 0x9002, 0x5408, 0x20, 0x35, 0x2013, 0x39, 0x20, 0x5C81, 0x5B69,
     0x5B50, 0x20, 0x8BA4, 0x5B57, 0x4E0E, 0x770B, 0x56FE, 0x8BC6, 0x7269, 0x3002, 0x0A, 0x0A,
     0x23, 0x20, 0x4E00, 0x3001, 0x5C0F, 0x62A5, 0x6807, 0x9898, 0x533A, 0xFF08, 0x9876,
     0x90E8, 0xFF09, 0x0A, 0x0A, 0x2A, 0x2A, 0x9876, 0x90E8, 0x5C45, 0x4E2D, 0x5927, 0x6807,
     0x9898, 0x2A, 0x2A, 0xFF1A, 0x300A]"

definition seg2 :: jsstring where
  "seg2 =
    [0x300B, 0x0A, 0x2A, 0x20, 0x2A, 0x2A, 0x98CE, 0x683C, 0x2A, 0x2A, 0xFF1A, 0x5341, 0x5B57,
     0x5C0F, 0x62A5, 0x20, 0x2F, 0x20, 0x513F, 0x7AE5, 0x5B66, 0x4E60, 0x62A5, 0x611F, 0x0A,
     0x2A, 0x20, 0x2A, 0x2A, 0x6587, 0x672C, 0x8981, 0x6C42, 0x2A, 0x2A, 0xFF1A, 0x5927,
     0x5B57, 0x3001, 0x9192, 0x76EE, 0x3001, 0x5361, 0x901A, 0x624B, 0x5199, 0x4F53, 0x3001,
     0x5F69, 0x8272, 0x63CF, 0x8FB9, 0x0A, 0x2A, 0x20, 0x2A, 0x2A, 0x88C5, 0x9970, 0x2A, 0x2A,
     0xFF1A, 0x5468, 0x56F4, 0x6DFB, 0x52A0, 0x4E0E, 0x20]"

definition seg3 :: jsstring where
  "seg3 =
    [0x20, 0x76F8, 0x5173, 0x7684, 0x8D34, 0x7EB8, 0x98CE, 0x88C5, 0x9970, 0xFF0C, 0x989C,
     0x8272, 0x9C9C, 0x8273, 0x0A, 0x0A, 0x23, 0x20, 0x4E8C, 0x3001, 0x5C0F, 0x62A5, 0x4E3B,
     0x4F53, 0xFF08, 0x4E2D, 0x95F4, 0x4E3B, 0x753B, 0x9762, 0xFF09, 0x0A, 0x0A, 0x753B,
     0x9762, 0x4E2D, 0x5FC3, 0x662F, 0x4E00, 0x5E45, 0x20, 0x2A, 0x2A, 0x5361, 0x901A, 0x63D2,
     0x753B, 0x98CE, 0x7684, 0x300C]"

definition seg4 :: jsstring where
  "seg4 =
    [0x300D, 0x573A, 0x666F, 0x2A, 0x2A, 0xFF1A, 0x0A, 0x2A, 0x20, 0x2A, 0x2A, 0x6574, 0x4F53,
     0x6C14, 0x6C1B, 0x2A, 0x2A, 0xFF1A, 0x660E, 0x4EAE, 0x3001, 0x6E29, 0x6696, 0x3001,
     0x79EF, 0x6781, 0x0A, 0x2A, 0x20, 0x2A, 0x2A, 0x6784, 0x56FE, 0x2A, 0x2A, 0xFF1A, 0x7269,
     0x4F53, 0x8FB9, 0x754C, 0x6E05, 0x6670, 0xFF0C, 0x65B9, 0x4FBF, 0x5BF9, 0x5E94, 0x6587,
     0x5B57, 0xFF0C, 0x4E0D, 0x8981, 0x8FC7, 0x4E8E, 0x62E5, 0x6324, 0x3002, 0x0A, 0x0A, 0x2A,
     0x2A, 0x573A, 0x666F, 0x5206, 0x533A, 0x4E0E, 0x6838, 0x5FC3, 0x5185, 0x5BB9, 0x2A, 0x2A,
     0x0A, 0x31, 0x2E, 0x20, 0x20, 0x2A, 0x2A, 0x6838, 0x5FC3, 0x533A, 0x57DF, 0x20, 0x41,
     0xFF08, 0x4E3B, 0x8981, 0x5BF9, 0x8C61, 0xFF09, 0x2A, 0x2A, 0xFF1A, 0x8868, 0x73B0, 0x20]"

definition seg5 :: jsstring where
  "seg5 =
    [0x20, 0x7684, 0x6838, 0x5FC3, 0x6D3B, 0x52A8, 0x3002, 0x0A, 0x32, 0x2E, 0x20, 0x20, 0x2A,
     0x2A, 0x6838, 0x5FC3, 0x533A, 0x57DF, 0x20, 0x42, 0xFF08, 0x914D, 0x5957, 0x8BBE, 0x65BD,
     0xFF09, 0x2A, 0x2A, 0xFF1A, 0x5C55, 0x793A, 0x76F8, 0x5173, 0x7684, 0x5DE5, 0x5177,
     0x6216, 0x7269, 0x54C1, 0x3002, 0x0A, 0x33, 0x2E, 0x20, 0x20, 0x2A, 0x2A, 0x6838, 0x5FC3,
     0x533A, 0x57DF, 0x20, 0x43, 0xFF08, 0x73AF, 0x5883, 0x80CC, 0x666F, 0xFF09, 0x2A, 0x2A,
     0xFF1A, 0x4F53, 0x73B0, 0x73AF, 0x5883, 0x7279, 0x5F81, 0xFF08, 0x5982, 0x5899, 0x9762,
     0x3001, 0x6307, 0x793A, 0x724C, 0x7B49, 0xFF09, 0x3002, 0x0A, 0x0A, 0x2A, 0x2A, 0x4E3B,
     0x9898, 0x4EBA, 0x7269, 0x2A, 0x2A, 0x0A, 0x2A, 0x20, 0x2A, 0x2A, 0x89D2, 0x8272, 0x2A,
     0x2A, 0xFF1A, 0x31, 0x20, 0x4F4D, 0x53EF, 0x7231, 0x5361, 0x901A, 0x4EBA, 0x7269, 0xFF08,
     0x804C, 0x4E1A, 0x2F, 0x8EAB, 0x4EFD, 0xFF1A, 0x4E0E, 0x20]"

definition seg6 :: jsstring where
  "seg6 =
    [0x20, 0x5339, 0x914D, 0xFF09, 0x3002, 0x0A, 0x2A, 0x20, 0x2A, 0x2A, 0x52A8, 0x4F5C, 0x2A,
     0x2A, 0xFF1A, 0x6B63, 0x5728, 0x8FDB, 0x884C, 0x4E0E, 0x573A, 0x666F, 0x76F8, 0x5173,
     0x7684, 0x81EA, 0x7136, 0x4E92, 0x52A8, 0x3002, 0x0A, 0x0A, 0x23, 0x20, 0x4E09, 0x3001,
     0x5FC5, 0x753B, 0x7269, 0x4F53, 0x4E0E, 0x8BC6, 0x5B57, 0x6E05, 0x5355, 0xFF08, 0x47,
     0x65, 0x6E, 0x65, 0x72, 0x61, 0x74, 0x65, 0x64, 0x20, 0x43, 0x6F, 0x6E, 0x74, 0x65, 0x6E,
     0x74, 0xFF09, 0x0A, 0x0A, 0x2A, 0x2A, 0x8BF7, 0x52A1, 0x5FC5, 0x5728, 0x753B, 0x9762,
     0x4E2D, 0x6E05, 0x6670, 0x7ED8, 0x5236, 0x4EE5, 0x4E0B, 0x7269, 0x4F53, 0xFF0C, 0x5E76,
     0x4E3A, 0x5176, 0x9884, 0x7559, 0x8D34, 0x6807, 0x7B7E, 0x7684, 0x4F4D, 0x7F6E, 0xFF1A,
     0x2A, 0x2A, 0x0A, 0x0A, 0x2A, 0x2A, 0x31, 0x2E, 0x20, 0x6838, 0x5FC3, 0x89D2, 0x8272,
     0x4E0E, 0x8BBE, 0x65BD, 0xFF1A, 0x2A, 0x2A, 0x0A]"

definition seg7 :: jsstring where
  "seg7 =
    [0x0A, 0x0A, 0x2A, 0x2A, 0x32, 0x2E, 0x20, 0x5E38, 0x89C1, 0x7269, 0x54C1, 0x2F, 0x5DE5,
     0x5177, 0xFF1A, 0x2A, 0x2A, 0x0A]"

definition seg8 :: jsstring where
  "seg8 =
    [0x0A, 0x0A, 0x2A, 0x2A, 0x33, 0x2E, 0x20, 0x73AF, 0x5883, 0x4E0E, 0x88C5, 0x9970, 0xFF1A,
     0x2A, 0x2A, 0x0A]"

definition seg9 :: jsstring where
  "seg9 =
    [0x0A, 0x0A, 0x2A, 0x28, 0x6CE8, 0x610F, 0xFF1A, 0x753B, 0x9762, 0x4E2D, 0x7684, 0x7269,
     0x4F53, 0x6570, 0x91CF, 0x4E0D, 0x9650, 0x4E8E, 0x6B64, 0xFF0C, 0x4F46, 0x4EE5, 0x4E0A,
     0x5217, 0x8868, 0x5FC5, 0x987B, 0x4F5C, 0x4E3A, 0x91CD, 0x70B9, 0x63CF, 0x7ED8, 0x5BF9,
     0x8C61, 0x29, 0x2A, 0x0A, 0x0A, 0x23, 0x20, 0x56DB, 0x3001, 0x8BC6, 0x5B57, 0x6807,
     0x6CE8, 0x89C4, 0x5219, 0x0A, 0x0A, 0x5BF9, 0x4E0A, 0x8FF0, 0x6E05, 0x5355, 0x4E2D,
     0x7684, 0x7269, 0x4F53, 0xFF0C, 0x8D34, 0x4E0A, 0x4E2D, 0x6587, 0x8BC6, 0x5B57, 0x6807,
     0x7B7E, 0xFF1A, 0x0A, 0x2A, 0x20, 0x2A, 0x2A, 0x683C, 0x5F0F, 0x2A, 0x2A, 0xFF1A, 0x4E24,
     0x884C, 0x5236, 0xFF08, 0x7B2C, 0x4E00, 0x884C, 0x62FC, 0x97F3, 0x5E26, 0x58F0, 0x8C03,
     0xFF0C, 0x7B2C, 0x4E8C, 0x884C, 0x7B80, 0x4F53, 0x6C49, 0x5B57, 0xFF09, 0x3002, 0x0A,
     0x2A, 0x20, 0x2A, 0x2A, 0x6837, 0x5F0F, 0x2A, 0x2A, 0xFF1A, 0x5F69, 0x8272, 0x5C0F,
     0x8D34, 0x7EB8, 0x98CE, 0x683C, 0xFF0C, 0x767D, 0x5E95, 0x9ED1, 0x5B57, 0x6216, 0x6DF1,
     0x8272, 0x5B57, 0xFF0C, 0x6E05, 0x6670, 0x53EF, 0x8BFB, 0x3002, 0x0A, 0x2A, 0x20, 0x2A,
     0x2A, 0x6392, 0x7248, 0x2A, 0x2A, 0xFF1A, 0x6807, 0x7B7E, 0x9760, 0x8FD1, 0x5BF9, 0x5E94,
     0x7684, 0x7269, 0x4F53, 0xFF0C, 0x4E0D, 0x906E, 0x6321, 0x4E3B, 0x4F53, 0x3002, 0x0A,
     0x0A, 0x23, 0x20, 0x4E94, 0x3001, 0x753B, 0x98CE, 0x53C2, 0x6570, 0x0A, 0x2A, 0x20, 0x2A,
     0x2A, 0x98CE, 0x683C, 0x2A, 0x2A, 0xFF1A, 0x513F, 0x7AE5, 0x7ED8, 0x672C, 0x98CE, 0x20,
     0x2B, 0x20, 0x8BC6, 0x5B57, 0x5C0F, 0x62A5, 0x98CE, 0x0A, 0x2A, 0x20, 0x2A, 0x2A, 0x8272,
     0x5F69, 0x2A, 0x2A, 0xFF1A, 0x9AD8, 0x9971, 0x548C, 0x3001, 0x660E, 0x5FEB, 0x3001,
     0x6E29, 0x6696, 0x20, 0x28, 0x48, 0x69, 0x67, 0x68, 0x20, 0x53, 0x61, 0x74, 0x75, 0x72,
     0x61, 0x74, 0x69, 0x6F, 0x6E, 0x2C, 0x20, 0x57, 0x61, 0x72, 0x6D, 0x20, 0x54, 0x6F, 0x6E,
     0x65, 0x29, 0x0A, 0x2A, 0x20, 0x2A, 0x2A, 0x8D28, 0x91CF, 0x2A, 0x2A, 0xFF1A, 0x38, 0x6B,
     0x20, 0x72, 0x65, 0x73, 0x6F, 0x6C, 0x75, 0x74, 0x69, 0x6F, 0x6E, 0x2C, 0x20, 0x68, 0x69,
     0x67, 0x68, 0x20, 0x64, 0x65, 0x74, 0x61, 0x69, 0x6C, 0x2C, 0x20, 0x76, 0x65, 0x63, 0x74,
     0x6F, 0x72, 0x20, 0x69, 0x6C, 0x6C, 0x75, 0x73, 0x74, 0x72, 0x61, 0x74, 0x69, 0x6F, 0x6E,
     0x20, 0x73, 0x74, 0x79, 0x6C, 0x65, 0x2C, 0x20, 0x63, 0x6C, 0x65, 0x61, 0x6E, 0x20, 0x6C,
     0x69, 0x6E, 0x65, 0x73, 0x2E]"

definition template :: jsstring where
  "template =
     seg0 @ ph_theme @ seg1 @ ph_title @ seg2 @ ph_theme @
     seg3 @ ph_theme @ seg4 @ ph_theme @ seg5 @ ph_theme @
     seg6 @ ph_characters @ seg7 @ ph_items @ seg8 @ ph_environment @ seg9"

record formatted =
  f_characters :: jsstring
  f_items :: jsstring
  f_environment :: jsstring

fun js_join :: "jsstring \<Rightarrow> jsstring list \<Rightarrow> jsstring" where
  "js_join sep [] = []"
| "js_join sep [x] = x"
| "js_join sep (x # y # rest) = x @ sep @ js_join sep (y # rest)"

definition formatList :: "vocabulary_entry list \<Rightarrow> jsstring" where
  "formatList list = js_join (u '', '') (map (\<lambda>item. pinyin item @ u '' '' @ chinese item) list)"

definition or_empty :: "'a list option \<Rightarrow> 'a list" where
  "or_empty v = (case v of None \<Rightarrow> [] | Some l \<Rightarrow> l)"

definition formatVocabularies :: "vocabularies \<Rightarrow> formatted" where
  "formatVocabularies v =
     \<lparr>f_characters = formatList (or_empty (characters v)),
      f_items = formatList (case items v of Some l \<Rightarrow> l | None \<Rightarrow> or_empty (animals v)),
      f_environment = formatList (or_empty (facilities v) @ or_empty (environment v))\<rparr>"

text \<open>
  \<open>generatePrompt\<close>, with the catalog \<open>themes\<close> that the vocabulary generator holds when
  the call is made.
\<close>

definition generatePrompt :: "theme js_object option \<Rightarrow> jsstring \<Rightarrow> jsstring \<Rightarrow> jsstring" where
  "generatePrompt themes t title =
     (let formattedVocabs = formatVocabularies (generateVocabulary themes t)
      in replace_g ph_environment (f_environment formattedVocabs)
           (replace_g ph_items (f_items formattedVocabs)
              (replace_g ph_characters (f_characters formattedVocabs)
                 (replace_g ph_title title
                    (replace_g ph_theme t template)))))"

section \<open>ConversationManager (business logic module)\<close>

text \<open>The message texts of lines 32, 60 and 80.\<close>

definition msg_ask_theme :: jsstring where
  "msg_ask_theme =
    [0x8BF7, 0x95EE, 0x8FD9, 0x671F, 0x513F, 0x7AE5, 0x8BC6, 0x5B57, 0x5C0F, 0x62A5, 0x7684,
     0x4E3B, 0x9898, 0x2F, 0x573A, 0x666F, 0x662F, 0x4EC0, 0x4E48, 0xFF1F, 0xFF08, 0x5982,
     0xFF1A, 0x8D85, 0x5E02, 0x3001, 0x533B, 0x9662, 0x3001, 0x516C, 0x56ED, 0xFF09]"

definition msg_ask_title :: jsstring where
  "msg_ask_title =
    [0x8BF7, 0x95EE, 0x5C0F, 0x62A5, 0x7684, 0x5927, 0x6807, 0x9898, 0x662F, 0x4EC0, 0x4E48,
     0xFF1F, 0xFF08, 0x5982, 0xFF1A, 0x300A, 0x8D70, 0x8FDB, 0x8D85, 0x5E02, 0x300B, 0x300A,
     0x5FEB, 0x4E50, 0x533B, 0x9662, 0x300B, 0xFF09]"

definition msg_prompt_ready :: jsstring where
  "msg_prompt_ready =
    [0x63D0, 0x793A, 0x8BCD, 0x5DF2, 0x751F, 0x6210, 0xFF0C, 0x6B63, 0x5728, 0x751F, 0x6210,
     0x5C0F, 0x62A5, 0x56FE, 0x7247, 0x2E, 0x2E, 0x2E]"

datatype conv_state = IDLE | ASKING_THEME | ASKING_TITLE | GENERATING

datatype message_type = System | User | AI

text \<open>
  A message as it is handed to \<open>addMessage\<close>, and as \<open>addMessage\<close> stores it, with the
  \<open>id\<close> and \<open>timestamp\<close> fields added.
\<close>

record message_body =
  mtype :: message_type
  content :: jsstring
  prompt_text :: "jsstring option"

record message = message_body +
  msg_id :: jsstring
  timestamp :: nat

record manager =
  state :: conv_state
  currentTheme :: "jsstring option"
  currentTitle :: "jsstring option"
  messages :: "message list"

text \<open>
  \<open>Date.now()\<close> is an input of the program: \<open>now i\<close> is what the \<open>i\<close>-th call of
  \<open>Date.now()\<close> returns (milliseconds, a non-negative integer), and the number of calls
  made so far is passed along with the manager. \<open>toString\<close> is the decimal form of such a
  number.
\<close>

fun toString :: "nat \<Rightarrow> jsstring" where
  "toString n = (if n < 10 then [0x30 + n] else toString (n div 10) @ [0x30 + n mod 10])"

declare toString.simps [simp del]

definition addMessage ::
  "(nat \<Rightarrow> nat) \<Rightarrow> message_body \<Rightarrow> manager \<times> nat \<Rightarrow> manager \<times> nat" where
  "addMessage now m w =
     (case w of (this, ticks) \<Rightarrow>
        (this\<lparr>messages := messages this @
           [\<lparr>mtype = mtype m, content = content m, prompt_text = prompt_text m,
             msg_id = toString (now ticks), timestamp = now (ticks + 1)\<rparr>]\<rparr>,
         ticks + 2))"

record response =
  r_state :: conv_state
  r_message :: message_body
  nextStep :: "jsstring option"
  r_prompt :: "jsstring option"
  r_theme :: "jsstring option"
  r_title :: "jsstring option"

definition startConversation ::
  "(nat \<Rightarrow> nat) \<Rightarrow> manager \<times> nat \<Rightarrow> (manager \<times> nat) \<times> conv_state \<times> message option" where
  "startConversation now w =
     (case w of (this, ticks) \<Rightarrow>
        let w' = addMessage now \<lparr>mtype = System, content = msg_ask_theme, prompt_text = None\<rparr>
                   (this\<lparr>state := ASKING_THEME, currentTheme := None, currentTitle := None,
                         messages := []\<rparr>, ticks)
        in (w', state (fst w'),
            (case messages (fst w') of [] \<Rightarrow> None | first # rest \<Rightarrow> Some first)))"

text \<open>
  \<open>handleUserInput\<close> returns the response or the raised error, together with the manager
  as the call leaves it. The prompt generator of line 75 is created just before its use on
  line 76, when the asynchronous load of its catalog has not completed: its \<open>themes\<close> is
  still \<open>null\<close>. A \<open>currentTheme\<close> that is still \<open>null\<close> would be substituted as the text
  \<open>null\<close>.
\<close>

definition handleUserInput ::
  "(nat \<Rightarrow> nat) \<Rightarrow> jsstring \<Rightarrow> manager \<times> nat \<Rightarrow> (js_error + response) \<times> manager \<times> nat" where
  "handleUserInput now input w =
     (case addMessage now \<lparr>mtype = User, content = input, prompt_text = None\<rparr> w of
        (this, ticks) \<Rightarrow>
          (case state this of
             ASKING_THEME \<Rightarrow>
               let this1 = this\<lparr>currentTheme := Some input, state := ASKING_TITLE\<rparr>;
                   titleMessage = \<lparr>mtype = System, content = msg_ask_title, prompt_text = None\<rparr>;
                   w2 = addMessage now titleMessage (this1, ticks)
               in (Inr \<lparr>r_state = state (fst w2), r_message = titleMessage,
                        nextStep = Some (u ''title''), r_prompt = None, r_theme = None,
                        r_title = None\<rparr>, w2)
           | ASKING_TITLE \<Rightarrow>
               let this1 = this\<lparr>currentTitle := Some input, state := GENERATING\<rparr>;
                   prompt = generatePrompt None
                              (case currentTheme this1 of None \<Rightarrow> u ''null'' | Some t \<Rightarrow> t) input;
                   promptMessage = \<lparr>mtype = AI, content = msg_prompt_ready,
                                    prompt_text = Some prompt\<rparr>;
                   w2 = addMessage now promptMessage (this1, ticks)
               in (Inr \<lparr>r_state = state (fst w2), r_message = promptMessage,
                        nextStep = None, r_prompt = Some prompt,
                        r_theme = currentTheme (fst w2), r_title = currentTitle (fst w2)\<rparr>, w2)
           | IDLE \<Rightarrow> (Inl (Error (u ''Invalid conversation state'')), this, ticks)
           | GENERATING \<Rightarrow> (Inl (Error (u ''Invalid conversation state'')), this, ticks)))"

definition reset :: "manager \<Rightarrow> manager" where
  "reset this = this\<lparr>state := IDLE, currentTheme := None, currentTitle := None, messages := []\<rparr>"

definition new_manager :: manager where
  "new_manager = \<lparr>state = IDLE, currentTheme = None, currentTitle = None, messages = []\<rparr>"

section \<open>Notions used to state and prove the properties of the prompt\<close>

text \<open>
  \<open>match_count pat S\<close> is the number of matches the global pattern finds in \<open>S\<close>: the
  places at which \<open>replaceFrom\<close> substitutes.
\<close>

function match_count :: "jsstring \<Rightarrow> jsstring \<Rightarrow> nat" where
  "match_count pat [] = 0"
| "match_count pat (c # cs) =
     (if pat \<noteq> [] \<and> prefix pat (c # cs)
      then 1 + match_count pat (drop (length pat) (c # cs))
      else match_count pat cs)"
  by pat_completeness auto
termination
  by (relation "measure (\<lambda>(pat, rest). length rest)") (auto simp: neq_Nil_conv)

declare match_count.simps [simp del]

text \<open>
  A text is plain when it contains neither \<open>$\<close> (\<open>0x24\<close>) nor \<open>{\<close> (\<open>0x7B\<close>).
  \<open>clash pat ys\<close> says that \<open>pat\<close> and \<open>ys\<close> differ at a position both have, so that
  \<open>pat\<close> does not match at the start of \<open>ys\<close> whatever follows \<open>ys\<close>; \<open>all_clash pat xs\<close>
  says so for every non-empty suffix of \<open>xs\<close>.
\<close>

fun clash :: "jsstring \<Rightarrow> jsstring \<Rightarrow> bool" where
  "clash (p # ps) (y # ys) = (p \<noteq> y \<or> clash ps ys)"
| "clash ps ys = False"

fun all_clash :: "jsstring \<Rightarrow> jsstring \<Rightarrow> bool" where
  "all_clash pat [] = True"
| "all_clash pat (y # ys) = (clash pat (y # ys) \<and> all_clash pat ys)"

definition plain :: "jsstring \<Rightarrow> bool" where
  "plain s = (0x24 \<notin> set s \<and> 0x7B \<notin> set s)"

definition starts_brace :: "jsstring \<Rightarrow> bool" where
  "starts_brace pat = (case pat of [] \<Rightarrow> False | p # ps \<Rightarrow> p = 0x7B)"

section \<open>Concrete inputs: remotes, a clock and two catalogs\<close>

definition processing_reply :: "task_data reply" where
  "processing_reply = Responded \<lparr>code = 200, msg = None,
     data = Some \<lparr>t_state = u ''processing'', failMsg = None, resultJson = Missing\<rparr>\<rparr>"

definition fail_reply :: "jsstring \<Rightarrow> task_data reply" where
  "fail_reply m = Responded \<lparr>code = 200, msg = None,
     data = Some \<lparr>t_state = u ''fail'', failMsg = Some m, resultJson = Missing\<rparr>\<rparr>"

definition success_reply :: "result_json \<Rightarrow> task_data reply" where
  "success_reply j = Responded \<lparr>code = 200, msg = None,
     data = Some \<lparr>t_state = u ''success'', failMsg = None, resultJson = j\<rparr>\<rparr>"

definition fail_first :: "nat \<Rightarrow> task_data reply" where
  "fail_first i = (if i = 0 then fail_reply (u ''quota exceeded'') else processing_reply)"

definition flaky :: "nat \<Rightarrow> task_data reply" where
  "flaky i = Rejected (Error (if i < 2 then u ''early'' else u ''last''))"

definition mock_env :: "(nat \<Rightarrow> task_data reply) \<Rightarrow> api_env" where
  "mock_env remote = \<lparr>stored_key = Some (u ''key''), client = True,
     create_reply = (\<lambda>prompt. Responded \<lparr>code = 200, msg = None, data = Some (u ''task-1'')\<rparr>),
     poll_replies = (\<lambda>taskId. remote)\<rparr>"

definition two_then_success :: "nat \<Rightarrow> task_data reply" where
  "two_then_success i =
     (if i < 2 then processing_reply
      else success_reply (ParsedObject (Some [u ''https://x/y.png''])))"

text \<open>A clock whose first two readings fall in one millisecond and all later ones in another.\<close>

definition same_ms :: "nat \<Rightarrow> nat" where
  "same_ms i = (if i < 2 then 1700000000000 else 1700000005000)"

text \<open>Two small catalogs; the second theme of the first one has the key \<open>1\<close>.\<close>

definition plain_theme :: "jsstring \<Rightarrow> theme" where
  "plain_theme n = \<lparr>name = n, titles = [],
     vocabs = \<lparr>characters = None, items = None, animals = None, facilities = None,
               environment = None\<rparr>\<rparr>"

definition numbered_catalog :: "theme js_object" where
  "numbered_catalog =
     [(u ''zoo'', plain_theme (u ''zoo park'')), (u ''1'', plain_theme (u ''park''))]"

definition named_catalog :: "theme js_object" where
  "named_catalog =
     [(u ''zoo'', plain_theme (u ''zoo park'')), (u ''park'', plain_theme (u ''park''))]"

section \<open>Properties of the polling client\<close>

lemma u_eq_iff [simp]: "u a = u b \<longleftrightarrow> a = b"
  unfolding u_def by (simp add: inj_map_eq_map inj_on_def)

lemma pollLoop_exhausted:
  "\<not> attempts < maxAttempts \<Longrightarrow>
   pollLoop remote maxAttempts cb attempts reqs calls =
     \<lparr>outcome = Inl (Error msg_timeout), requests = reqs, progress_calls = calls\<rparr>"
  by (subst pollLoop.simps) simp

lemma pollLoop_return:
  "attempts < maxAttempts \<Longrightarrow>
   poll_try (remote reqs) attempts maxAttempts cb calls = (Return result, calls') \<Longrightarrow>
   pollLoop remote maxAttempts cb attempts reqs calls =
     \<lparr>outcome = Inr result, requests = reqs + 1, progress_calls = calls'\<rparr>"
  by (subst pollLoop.simps) simp

lemma pollLoop_normal:
  "attempts < maxAttempts \<Longrightarrow>
   poll_try (remote reqs) attempts maxAttempts cb calls = (Normal, calls') \<Longrightarrow>
   pollLoop remote maxAttempts cb attempts reqs calls =
     pollLoop remote maxAttempts cb (attempts + 1) (reqs + 1) calls'"
  by (subst pollLoop.simps) simp

lemma pollLoop_throw_last:
  "attempts < maxAttempts \<Longrightarrow> attempts = maxAttempts - 1 \<Longrightarrow>
   poll_try (remote reqs) attempts maxAttempts cb calls = (Throw e, calls') \<Longrightarrow>
   pollLoop remote maxAttempts cb attempts reqs calls =
     \<lparr>outcome = Inl e, requests = reqs + 1, progress_calls = calls'\<rparr>"
  by (subst pollLoop.simps) simp

lemma pollLoop_throw_retry:
  "attempts < maxAttempts - 1 \<Longrightarrow>
   poll_try (remote reqs) attempts maxAttempts cb calls = (Throw e, calls') \<Longrightarrow>
   pollLoop remote maxAttempts cb attempts reqs calls =
     pollLoop remote maxAttempts cb (attempts + 1) (reqs + 1) calls'"
  by (subst pollLoop.simps) simp

lemma poll_try_other:
  "code d = 200 \<Longrightarrow> data d = Some t \<Longrightarrow> t_state t \<noteq> u ''success'' \<Longrightarrow> t_state t \<noteq> u ''fail'' \<Longrightarrow>
   poll_try (Responded d) a n True calls =
     (Normal, calls @ [\<lparr>p_state = t_state t, p_attempts = a + 1, p_maxAttempts = n\<rparr>])"
  by (simp add: poll_try_def queryTask_def)

lemma poll_try_success:
  "code d = 200 \<Longrightarrow> data d = Some t \<Longrightarrow> t_state t = u ''success'' \<Longrightarrow>
   poll_try (Responded d) a n True calls =
     (Return d, calls @ [\<lparr>p_state = t_state t, p_attempts = a + 1, p_maxAttempts = n\<rparr>])"
  by (simp add: poll_try_def queryTask_def)

lemma poll_try_fail:
  "code d = 200 \<Longrightarrow> data d = Some t \<Longrightarrow> t_state t = u ''fail'' \<Longrightarrow>
   poll_try (Responded d) a n True calls =
     (Throw (Error (or_else (failMsg t) msg_task_failed)),
      calls @ [\<lparr>p_state = t_state t, p_attempts = a + 1, p_maxAttempts = n\<rparr>])"
  by (simp add: poll_try_def queryTask_def)

text \<open>
  Claim C3. With a key configured and the task created, a remote that answers the first two
  status requests with state \<open>processing\<close> and the third with \<open>success\<close> and
  \<open>resultUrls = ["https://x/y.png"]\<close> makes \<open>generateImage\<close> call \<open>onProgress\<close> exactly
  three times, with \<open>attempts\<close> 1, 2, 3 in this order (the third call, made for the
  \<open>success\<close> answer, shows that the callback runs before the state is examined), issue
  exactly three status requests, and return \<open>"https://x/y.png"\<close>.
\<close>

theorem generateImage_three_polls:
  assumes conf: "isConfigured env"
    and cr: "create_reply env prompt = Responded \<lparr>code = 200, msg = m, data = Some taskId\<rparr>"
    and p0: "poll_replies env taskId 0 = Responded \<lparr>code = 200, msg = m0,
               data = Some \<lparr>t_state = u ''processing'', failMsg = f0, resultJson = j0\<rparr>\<rparr>"
    and p1: "poll_replies env taskId 1 = Responded \<lparr>code = 200, msg = m1,
               data = Some \<lparr>t_state = u ''processing'', failMsg = f1, resultJson = j1\<rparr>\<rparr>"
    and p2: "poll_replies env taskId 2 = Responded \<lparr>code = 200, msg = m2,
               data = Some \<lparr>t_state = u ''success'', failMsg = f2,
                 resultJson = ParsedObject (Some [u ''https://x/y.png''])\<rparr>\<rparr>"
  shows "generateImage env prompt True =
           \<lparr>outcome = Inr (u ''https://x/y.png''), requests = 3,
            progress_calls =
              [\<lparr>p_state = u ''processing'', p_attempts = 1, p_maxAttempts = 30\<rparr>,
               \<lparr>p_state = u ''processing'', p_attempts = 2, p_maxAttempts = 30\<rparr>,
               \<lparr>p_state = u ''success'', p_attempts = 3, p_maxAttempts = 30\<rparr>]\<rparr>"
proof -
  let ?remote = "poll_replies env taskId"
  let ?e0 = "\<lparr>p_state = u ''processing'', p_attempts = 1, p_maxAttempts = 30\<rparr>"
  let ?e1 = "\<lparr>p_state = u ''processing'', p_attempts = 2, p_maxAttempts = 30\<rparr>"
  let ?e2 = "\<lparr>p_state = u ''success'', p_attempts = 3, p_maxAttempts = 30\<rparr>"
  have s0: "pollLoop ?remote 30 True 0 0 [] = pollLoop ?remote 30 True 1 1 [?e0]"
    using pollLoop_normal [of 0 30 ?remote 0 True "[]" "[?e0]"] p0
    by (simp add: poll_try_other del: One_nat_def)
  have s1: "pollLoop ?remote 30 True 1 1 [?e0] = pollLoop ?remote 30 True 2 2 [?e0, ?e1]"
    using pollLoop_normal [of 1 30 ?remote 1 True "[?e0]" "[?e0, ?e1]"] p1
    by (simp add: poll_try_other del: One_nat_def)
  have s2: "pollLoop ?remote 30 True 2 2 [?e0, ?e1] =
      \<lparr>outcome = Inr \<lparr>code = 200, msg = m2,
               data = Some \<lparr>t_state = u ''success'', failMsg = f2,
                 resultJson = ParsedObject (Some [u ''https://x/y.png''])\<rparr>\<rparr>,
       requests = 3, progress_calls = [?e0, ?e1, ?e2]\<rparr>"
    using pollLoop_return [of 2 30 ?remote 2 True "[?e0, ?e1]" _ "[?e0, ?e1, ?e2]"] p2
    by (simp add: poll_try_success del: One_nat_def)
  have poll: "pollUntilComplete ?remote 30 True =
      \<lparr>outcome = Inr \<lparr>code = 200, msg = m2,
               data = Some \<lparr>t_state = u ''success'', failMsg = f2,
                 resultJson = ParsedObject (Some [u ''https://x/y.png''])\<rparr>\<rparr>,
       requests = 3, progress_calls = [?e0, ?e1, ?e2]\<rparr>"
    by (simp only: pollUntilComplete_def s0 s1 s2)
  have url: "u ''https://x/y.png'' \<noteq> []" by (simp add: u_def)
  show ?thesis
    using conf cr url
    by (simp add: generateImage_def poll createTask_def firstUrl_def isConfigured_def)
qed


theorem generateImage_three_polls_witness:
  "isConfigured (mock_env two_then_success) \<and>
   generateImage (mock_env two_then_success) (u ''a prompt'') True =
           \<lparr>outcome = Inr (u ''https://x/y.png''), requests = 3,
            progress_calls =
              [\<lparr>p_state = u ''processing'', p_attempts = 1, p_maxAttempts = 30\<rparr>,
               \<lparr>p_state = u ''processing'', p_attempts = 2, p_maxAttempts = 30\<rparr>,
               \<lparr>p_state = u ''success'', p_attempts = 3, p_maxAttempts = 30\<rparr>]\<rparr>"
  using generateImage_three_polls [of "mock_env two_then_success" "u ''a prompt''" None
      "u ''task-1''" None None Missing None None Missing None None]
  by (simp add: mock_env_def two_then_success_def processing_reply_def success_reply_def
      isConfigured_def getApiKey_def truthy_def u_def)

text \<open>
  Claim C1. The claim says that a \<open>fail\<close> state ends polling at the attempt that observes
  it, with the remote's \<open>failMsg\<close> as the error. The \<open>throw\<close> for the \<open>fail\<close> state sits
  inside the \<open>try\<close> block, so the \<open>catch\<close> clause of the same iteration receives it and, on
  every attempt but the last, swallows it. With \<open>maxAttempts = 3\<close> and a remote that answers
  \<open>fail\<close> with \<open>failMsg = "quota exceeded"\<close> to the first request and \<open>processing\<close>
  afterwards, the code issues all three requests and fails with the timeout error.
\<close>

theorem pollUntilComplete_fail_not_terminal:
  "pollUntilComplete fail_first 3 True =
     \<lparr>outcome = Inl (Error msg_timeout), requests = 3,
      progress_calls =
        [\<lparr>p_state = u ''fail'', p_attempts = 1, p_maxAttempts = 3\<rparr>,
         \<lparr>p_state = u ''processing'', p_attempts = 2, p_maxAttempts = 3\<rparr>,
         \<lparr>p_state = u ''processing'', p_attempts = 3, p_maxAttempts = 3\<rparr>]\<rparr>"
proof -
  let ?e0 = "\<lparr>p_state = u ''fail'', p_attempts = 1, p_maxAttempts = 3\<rparr>"
  let ?e1 = "\<lparr>p_state = u ''processing'', p_attempts = 2, p_maxAttempts = 3\<rparr>"
  let ?e2 = "\<lparr>p_state = u ''processing'', p_attempts = 3, p_maxAttempts = 3\<rparr>"
  have s0: "pollLoop fail_first 3 True 0 0 [] = pollLoop fail_first 3 True 1 1 [?e0]"
    using pollLoop_throw_retry [of 0 3 fail_first 0 True "[]" _ "[?e0]"]
    by (simp add: poll_try_fail fail_first_def fail_reply_def del: One_nat_def)
  have s1: "pollLoop fail_first 3 True 1 1 [?e0] = pollLoop fail_first 3 True 2 2 [?e0, ?e1]"
    using pollLoop_normal [of 1 3 fail_first 1 True "[?e0]" "[?e0, ?e1]"]
    by (simp add: poll_try_other fail_first_def processing_reply_def del: One_nat_def)
  have s2: "pollLoop fail_first 3 True 2 2 [?e0, ?e1] =
              pollLoop fail_first 3 True 3 3 [?e0, ?e1, ?e2]"
    using pollLoop_normal [of 2 3 fail_first 2 True "[?e0, ?e1]" "[?e0, ?e1, ?e2]"]
    by (simp add: poll_try_other fail_first_def processing_reply_def del: One_nat_def)
  have s3: "pollLoop fail_first 3 True 3 3 [?e0, ?e1, ?e2] =
      \<lparr>outcome = Inl (Error msg_timeout), requests = 3, progress_calls = [?e0, ?e1, ?e2]\<rparr>"
    by (rule pollLoop_exhausted) simp
  show ?thesis
    by (simp only: pollUntilComplete_def s0 s1 s2 s3)
qed

text \<open>
  Claim C5. The claim says that a \<open>success\<close> result without a URL list always fails with
  the message of line 274. The check \<open>!imageUrl\<close> is reached only when \<open>resultJson\<close>
  parses and has a \<open>resultUrls\<close> list: a missing or unparsable \<open>resultJson\<close> ends in the
  SyntaxError of \<open>JSON.parse\<close>, and a missing \<open>resultUrls\<close> in the TypeError of
  \<open>resultJson.resultUrls[0]\<close>.
\<close>

theorem generateImage_success_without_resultJson:
  "outcome (generateImage (mock_env (\<lambda>i. success_reply Missing)) prompt True) = Inl SyntaxError \<and>
   outcome (generateImage (mock_env (\<lambda>i. success_reply Unparsable)) prompt True) = Inl SyntaxError \<and>
   outcome (generateImage (mock_env (\<lambda>i. success_reply (ParsedObject None))) prompt True) = Inl TypeError"
proof -
  have poll: "pollUntilComplete (\<lambda>i. success_reply j) 30 True =
      \<lparr>outcome = Inr \<lparr>code = 200, msg = None,
          data = Some \<lparr>t_state = u ''success'', failMsg = None, resultJson = j\<rparr>\<rparr>,
       requests = 1,
       progress_calls = [\<lparr>p_state = u ''success'', p_attempts = 1, p_maxAttempts = 30\<rparr>]\<rparr>" for j
    unfolding pollUntilComplete_def
    using pollLoop_return [of 0 30 "\<lambda>i. success_reply j" 0 True "[]"]
    by (simp add: poll_try_success success_reply_def del: One_nat_def)
  show ?thesis
    by (simp add: generateImage_def mock_env_def isConfigured_def getApiKey_def truthy_def
        u_def createTask_def poll firstUrl_def)
qed


text \<open>
  What \<open>generateImage\<close> does with a parsed result that has a list of URLs: the first
  entry when there is a non-empty one, the error of line 274 when the list is empty.
\<close>

lemma firstUrl_present:
  "data r = Some d \<Longrightarrow> resultJson d = ParsedObject (Some (x # xs)) \<Longrightarrow> x \<noteq> [] \<Longrightarrow>
   firstUrl r = Inr x"
  by (simp add: firstUrl_def)

lemma firstUrl_empty_list:
  "data r = Some d \<Longrightarrow> resultJson d = ParsedObject (Some []) \<Longrightarrow>
   firstUrl r = Inl (Error msg_missing_result)"
  by (simp add: firstUrl_def)

lemma poll_try_fst_indep:
  "fst (poll_try r a n cb calls) = fst (poll_try r a' n' cb' calls')"
  by (simp add: poll_try_def Let_def split: sum.splits option.splits)

lemma pollLoop_error_source:
  "outcome (pollLoop remote n cb a r calls) = Inl e \<Longrightarrow> e \<noteq> Error msg_timeout \<Longrightarrow>
   a < n \<and> requests (pollLoop remote n cb a r calls) = r + (n - a) \<and>
   fst (poll_try (remote (r + (n - 1 - a))) (n - 1) n cb calls0) = Throw e"
proof (induction remote n cb a r calls rule: pollLoop.induct)
  case (1 remote n cb a r calls)
  show ?case
  proof (cases "a < n")
    case False
    with "1.prems" show ?thesis by (simp add: pollLoop_exhausted)
  next
    case True
    obtain c calls' where pt: "poll_try (remote r) a n cb calls = (c, calls')"
      by (cases "poll_try (remote r) a n cb calls")
    have step: ?thesis
      if eq: "pollLoop remote n cb a r calls = pollLoop remote n cb (a + 1) (r + 1) calls'"
        and ih: "a + 1 < n \<and>
          requests (pollLoop remote n cb (a + 1) (r + 1) calls') = r + 1 + (n - (a + 1)) \<and>
          fst (poll_try (remote (r + 1 + (n - 1 - (a + 1)))) (n - 1) n cb calls0) = Throw e"
    proof -
      from ih have lt: "a + 1 < n" by blast
      then have idx: "r + 1 + (n - 1 - (a + 1)) = r + (n - 1 - a)"
        and cnt: "r + 1 + (n - (a + 1)) = r + (n - a)" by arith+
      from ih show ?thesis unfolding eq idx cnt using True by blast
    qed
    show ?thesis
    proof (cases c)
      case (Return result)
      with True pt "1.prems" show ?thesis by (simp add: pollLoop_return)
    next
      case Normal
      with True pt
      have eq: "pollLoop remote n cb a r calls = pollLoop remote n cb (a + 1) (r + 1) calls'"
        by (simp add: pollLoop_normal)
      from "1.prems"(1) have "outcome (pollLoop remote n cb (a + 1) (r + 1) calls') = Inl e"
        unfolding eq .
      from "1.IH"(2) [OF True pt [symmetric] Normal this "1.prems"(2)] eq
      show ?thesis by (rule step [rotated])
    next
      case (Throw e')
      show ?thesis
      proof (cases "a = n - 1")
        case last: True
        with True pt Throw have "pollLoop remote n cb a r calls =
            \<lparr>outcome = Inl e', requests = r + 1, progress_calls = calls'\<rparr>"
          by (simp add: pollLoop_throw_last)
        moreover have "fst (poll_try (remote r) (n - 1) n cb calls0) = Throw e'"
          using pt Throw poll_try_fst_indep [of "remote r" "n - 1" n cb calls0 a n cb calls]
          by simp
        ultimately show ?thesis using "1.prems" True last by simp
      next
        case notlast: False
        with True have lt: "a < n - 1" by arith
        with pt Throw
        have eq: "pollLoop remote n cb a r calls = pollLoop remote n cb (a + 1) (r + 1) calls'"
          by (simp add: pollLoop_throw_retry)
        from "1.prems"(1) have "outcome (pollLoop remote n cb (a + 1) (r + 1) calls') = Inl e"
          unfolding eq .
        from "1.IH"(1) [OF True pt [symmetric] Throw notlast this "1.prems"(2)] eq
        show ?thesis by (rule step [rotated])
      qed
    qed
  qed
qed

text \<open>
  One iteration of the loop, by how its \<open>try\<close> block ends; the bounds on the number of
  requests; and what a run of attempts that do not return amounts to.
\<close>

lemma pollLoop_step:
  assumes "a < n"
  obtains (ret) res c where
      "fst (poll_try (remote r) 0 0 False []) = Return res"
      "pollLoop remote n cb a r calls =
         \<lparr>outcome = Inr res, requests = r + 1, progress_calls = c\<rparr>"
  | (last) e c where
      "a = n - 1" "fst (poll_try (remote r) 0 0 False []) = Throw e"
      "pollLoop remote n cb a r calls =
         \<lparr>outcome = Inl e, requests = r + 1, progress_calls = c\<rparr>"
  | (cont) c where
      "\<forall>res. fst (poll_try (remote r) 0 0 False []) \<noteq> Return res"
      "a < n - 1 \<or> fst (poll_try (remote r) 0 0 False []) = Normal"
      "pollLoop remote n cb a r calls = pollLoop remote n cb (a + 1) (r + 1) c"
proof -
  obtain x c where pt: "poll_try (remote r) a n cb calls = (x, c)"
    by (cases "poll_try (remote r) a n cb calls")
  then have cls: "fst (poll_try (remote r) 0 0 False []) = x"
    using poll_try_fst_indep [of "remote r" 0 0 False "[]" a n cb calls] by simp
  show thesis
  proof (cases x)
    case (Return res)
    with pt cls assms show thesis by (intro ret [of res c]) (simp_all add: pollLoop_return)
  next
    case Normal
    with pt cls assms show thesis by (intro cont [of c]) (simp_all add: pollLoop_normal)
  next
    case (Throw e)
    show thesis
    proof (cases "a = n - 1")
      case True
      with Throw pt cls assms show thesis
        by (intro last [of e c]) (simp_all add: pollLoop_throw_last)
    next
      case False
      with assms have "a < n - 1" by arith
      with Throw pt cls show thesis
        by (intro cont [of c]) (simp_all add: pollLoop_throw_retry)
    qed
  qed
qed

lemma pollLoop_requests_bounds:
  "r + (if a < n then 1 else 0) \<le> requests (pollLoop remote n cb a r calls) \<and>
   requests (pollLoop remote n cb a r calls) \<le> r + (n - a)"
proof (induction "n - a" arbitrary: a r calls)
  case 0
  then show ?case by (simp add: pollLoop_exhausted)
next
  case (Suc d)
  then have lt: "a < n" by arith
  then show ?case
  proof (cases rule: pollLoop_step [of a n remote r cb calls])
    case (ret res c)
    with lt show ?thesis by simp
  next
    case (last e c)
    with lt show ?thesis by simp
  next
    case (cont c)
    let ?R = "requests (pollLoop remote n cb (a + 1) (r + 1) c)"
    from Suc(2) have "d = n - (a + 1)" by arith
    from Suc(1) [OF this, of "r + 1" c]
    have ih: "r + 1 + (if a + 1 < n then 1 else 0) \<le> ?R \<and> ?R \<le> r + 1 + (n - (a + 1))" .
    then have lo: "r + 1 \<le> ?R" by (cases "a + 1 < n") simp_all
    from ih have "?R \<le> r + 1 + (n - (a + 1))" by blast
    with lt have hi: "?R \<le> r + (n - a)" by arith
    from lo hi lt show ?thesis unfolding cont(3) by simp
  qed
qed

lemma pollLoop_advance:
  "\<forall>j<m. \<forall>res. fst (poll_try (remote (r + j)) 0 0 False []) \<noteq> Return res \<Longrightarrow> a + m < n \<Longrightarrow>
   \<exists>c. pollLoop remote n cb a r calls = pollLoop remote n cb (a + m) (r + m) c"
proof (induction m arbitrary: a r calls)
  case 0
  then show ?case by auto
next
  case (Suc m)
  then have lt: "a < n" and notlast: "a \<noteq> n - 1" by arith+
  from Suc.prems(1) have here: "\<forall>res. fst (poll_try (remote r) 0 0 False []) \<noteq> Return res"
    by (metis add.right_neutral zero_less_Suc)
  from Suc.prems(1) have later:
    "\<forall>j<m. \<forall>res. fst (poll_try (remote (r + 1 + j)) 0 0 False []) \<noteq> Return res"
    by (metis Suc_less_eq add.assoc plus_1_eq_Suc)
  from Suc.prems(2) have bound: "a + 1 + m < n" by arith
  from lt show ?case
  proof (cases rule: pollLoop_step [of a n remote r cb calls])
    case (ret res c)
    with here show ?thesis by blast
  next
    case (last e c)
    with notlast show ?thesis by blast
  next
    case (cont c)
    from Suc.IH [OF later bound, of c] obtain c' where
      "pollLoop remote n cb (a + 1) (r + 1) c = pollLoop remote n cb (a + 1 + m) (r + 1 + m) c'"
      by blast
    with cont(3) show ?thesis by (auto simp: add.commute add.left_commute)
  qed
qed

lemma pollLoop_same_effect:
  "\<forall>j<n - a.
      fst (poll_try (remote (r + j)) 0 0 False []) = fst (poll_try (remote' (r + j)) 0 0 False []) \<or>
      (a + j < n - 1 \<and>
       (\<forall>res. fst (poll_try (remote (r + j)) 0 0 False []) \<noteq> Return res) \<and>
       (\<forall>res. fst (poll_try (remote' (r + j)) 0 0 False []) \<noteq> Return res)) \<Longrightarrow>
   outcome (pollLoop remote n cb a r calls) = outcome (pollLoop remote' n cb a r calls') \<and>
   requests (pollLoop remote n cb a r calls) = requests (pollLoop remote' n cb a r calls')"
proof (induction "n - a" arbitrary: a r calls calls')
  case 0
  then show ?case by (simp add: pollLoop_exhausted)
next
  case (Suc d)
  then have lt: "a < n" by arith
  from Suc(2) have d: "d = n - (a + 1)" by arith
  from Suc(3) lt have here:
    "fst (poll_try (remote r) 0 0 False []) = fst (poll_try (remote' r) 0 0 False []) \<or>
      (a < n - 1 \<and>
       (\<forall>res. fst (poll_try (remote r) 0 0 False []) \<noteq> Return res) \<and>
       (\<forall>res. fst (poll_try (remote' r) 0 0 False []) \<noteq> Return res))"
    by (metis add.right_neutral zero_less_diff)
  have later: "\<forall>j<n - (a + 1).
      fst (poll_try (remote (r + 1 + j)) 0 0 False []) =
        fst (poll_try (remote' (r + 1 + j)) 0 0 False []) \<or>
      (a + 1 + j < n - 1 \<and>
       (\<forall>res. fst (poll_try (remote (r + 1 + j)) 0 0 False []) \<noteq> Return res) \<and>
       (\<forall>res. fst (poll_try (remote' (r + 1 + j)) 0 0 False []) \<noteq> Return res))"
  proof (intro allI impI)
    fix j assume "j < n - (a + 1)"
    then have "j + 1 < n - a" by arith
    with Suc(3) have
      "fst (poll_try (remote (r + (j + 1))) 0 0 False []) =
         fst (poll_try (remote' (r + (j + 1))) 0 0 False []) \<or>
       (a + (j + 1) < n - 1 \<and>
        (\<forall>res. fst (poll_try (remote (r + (j + 1))) 0 0 False []) \<noteq> Return res) \<and>
        (\<forall>res. fst (poll_try (remote' (r + (j + 1))) 0 0 False []) \<noteq> Return res))"
      by blast
    then show "fst (poll_try (remote (r + 1 + j)) 0 0 False []) =
        fst (poll_try (remote' (r + 1 + j)) 0 0 False []) \<or>
      (a + 1 + j < n - 1 \<and>
       (\<forall>res. fst (poll_try (remote (r + 1 + j)) 0 0 False []) \<noteq> Return res) \<and>
       (\<forall>res. fst (poll_try (remote' (r + 1 + j)) 0 0 False []) \<noteq> Return res))"
      by (simp add: add.commute add.left_commute)
  qed
  note ih = Suc(1) [OF d later]
  from lt show ?case
  proof (cases rule: pollLoop_step [of a n remote r cb calls])
    case (ret res c)
    with here have r': "fst (poll_try (remote' r) 0 0 False []) = Return res" by auto
    from lt show ?thesis
    proof (cases rule: pollLoop_step [of a n remote' r cb calls'])
      case (ret res' c')
      with r' \<open>pollLoop remote n cb a r calls = _\<close> show ?thesis by simp
    next
      case (last e c')
      with r' show ?thesis by simp
    next
      case (cont c')
      with r' show ?thesis by simp
    qed
  next
    case (last e c)
    with here have r': "fst (poll_try (remote' r) 0 0 False []) = Throw e" by auto
    from lt show ?thesis
    proof (cases rule: pollLoop_step [of a n remote' r cb calls'])
      case (ret res' c')
      with r' show ?thesis by simp
    next
      case l: (last e' c')
      with r' last show ?thesis by simp
    next
      case (cont c')
      with r' last(1) show ?thesis by auto
    qed
  next
    case (cont c)
    from lt show ?thesis
    proof (cases rule: pollLoop_step [of a n remote' r cb calls'])
      case (ret res' c')
      with here cont show ?thesis by auto
    next
      case l: (last e' c')
      with here cont show ?thesis by auto
    next
      case c2: (cont c')
      from ih [of c c'] cont(3) c2(3) show ?thesis by simp
    qed
  qed
qed


lemma no_return_indep:
  "(\<forall>res. fst (poll_try x a n cb calls) \<noteq> Return res) =
   (\<forall>res. fst (poll_try x 0 0 False []) \<noteq> Return res)"
  using poll_try_fst_indep [of x a n cb calls 0 0 False "[]"] by simp

lemma run_last_error:
  assumes "0 < n"
    and "\<forall>i<n - 1. \<forall>res. fst (poll_try (remote i) i n cb []) \<noteq> Return res"
    and "fst (poll_try (remote (n - 1)) (n - 1) n cb []) = Throw e"
  shows "outcome (pollUntilComplete remote n cb) = Inl e \<and>
         requests (pollUntilComplete remote n cb) = n"
proof -
  from assms(2) have "\<forall>j<n - 1. \<forall>res. fst (poll_try (remote (0 + j)) 0 0 False []) \<noteq> Return res"
    by (simp add: no_return_indep [of _ _ n cb "[]"])
  moreover from assms(1) have "0 + (n - 1) < n" by simp
  ultimately obtain c where
    adv: "pollLoop remote n cb 0 0 [] = pollLoop remote n cb (0 + (n - 1)) (0 + (n - 1)) c"
    using pollLoop_advance [of "n - 1" remote 0 0 n cb "[]"] by blast
  from assms(3) have thr: "fst (poll_try (remote (n - 1)) 0 0 False []) = Throw e"
    using poll_try_fst_indep [of "remote (n - 1)" 0 0 False "[]" "n - 1" n cb "[]"] by simp
  from assms(1) have "n - 1 < n" by simp
  then have "outcome (pollLoop remote n cb (n - 1) (n - 1) c) = Inl e \<and>
      requests (pollLoop remote n cb (n - 1) (n - 1) c) = n"
  proof (cases rule: pollLoop_step [of "n - 1" n remote "n - 1" cb c])
    case (ret res c')
    with thr show ?thesis by simp
  next
    case (last e' c')
    with thr assms(1) show ?thesis by simp
  next
    case (cont c')
    with thr show ?thesis by simp
  qed
  with adv show ?thesis by (simp add: pollUntilComplete_def)
qed

lemma run_early_error_continues:
  assumes "k < n - 1"
    and "\<forall>i<k. \<forall>res. fst (poll_try (remote i) i n cb []) \<noteq> Return res"
    and "fst (poll_try (remote k) k n cb []) = Throw e"
  shows "k + 2 \<le> requests (pollUntilComplete remote n cb)"
proof -
  have "\<forall>j<k + 1. \<forall>res. fst (poll_try (remote (0 + j)) 0 0 False []) \<noteq> Return res"
  proof (intro allI impI)
    fix j res assume "j < k + 1"
    then consider "j < k" | "j = k" by arith
    then show "fst (poll_try (remote (0 + j)) 0 0 False []) \<noteq> Return res"
    proof cases
      case 1
      with assms(2) show ?thesis by (simp add: no_return_indep [of _ _ n cb "[]"])
    next
      case 2
      with assms(3) show ?thesis
        using poll_try_fst_indep [of "remote k" 0 0 False "[]" k n cb "[]"] by simp
    qed
  qed
  moreover from assms(1) have lt: "0 + (k + 1) < n" by arith
  ultimately obtain c where
    adv: "pollLoop remote n cb 0 0 [] = pollLoop remote n cb (0 + (k + 1)) (0 + (k + 1)) c"
    using pollLoop_advance [of "k + 1" remote 0 0 n cb "[]"] by blast
  from pollLoop_requests_bounds [of "k + 1" "k + 1" n remote cb c] lt
  have "k + 2 \<le> requests (pollLoop remote n cb (k + 1) (k + 1) c)" by simp
  with adv show ?thesis by (simp add: pollUntilComplete_def)
qed

lemma run_early_error_as_any_other:
  assumes "k < n - 1"
    and "fst (poll_try (remote k) k n cb []) = Throw e"
    and "\<forall>res. fst (poll_try r' k n cb []) \<noteq> Return res"
  shows "outcome (pollUntilComplete (remote(k := r')) n cb) =
           outcome (pollUntilComplete remote n cb) \<and>
         requests (pollUntilComplete (remote(k := r')) n cb) =
           requests (pollUntilComplete remote n cb)"
proof -
  from assms(2) have a: "\<forall>res. fst (poll_try (remote k) 0 0 False []) \<noteq> Return res"
    using poll_try_fst_indep [of "remote k" 0 0 False "[]" k n cb "[]"] by simp
  from assms(3) have b: "\<forall>res. fst (poll_try r' 0 0 False []) \<noteq> Return res"
    by (simp add: no_return_indep [of _ k n cb "[]"])
  have "\<forall>j<n - 0.
      fst (poll_try ((remote(k := r')) (0 + j)) 0 0 False []) =
        fst (poll_try (remote (0 + j)) 0 0 False []) \<or>
      (0 + j < n - 1 \<and>
       (\<forall>res. fst (poll_try ((remote(k := r')) (0 + j)) 0 0 False []) \<noteq> Return res) \<and>
       (\<forall>res. fst (poll_try (remote (0 + j)) 0 0 False []) \<noteq> Return res))"
    using a b assms(1) by simp
  from pollLoop_same_effect [where remote = "remote(k := r')" and remote' = remote and n = n
      and a = 0 and r = 0 and cb = cb and calls = "[]" and calls' = "[]", OF this]
  show ?thesis by (simp only: pollUntilComplete_def)
qed

text \<open>
  Claim C4. In \<open>pollUntilComplete\<close> with \<open>maxAttempts = n\<close>:
  (1) an error raised in the \<open>try\<close> block of an attempt before the last is swallowed, and
  the loop goes on with the attempt counter advanced by one and the next status request;
  (2) an error raised on the last attempt (counter \<open>n - 1\<close>) is what the loop fails with;
  (3) whenever the call fails with an error other than the timeout raised after the loop,
  exactly \<open>n\<close> requests were issued and that error is the one raised by the \<open>try\<close> block
  of the last attempt;
  (4) for the whole call: when no attempt before the last returns and the last attempt
  raises \<open>e\<close>, the call fails with \<open>e\<close> after exactly \<open>n\<close> requests;
  (5) for the whole call: when attempt \<open>k\<close>, not the last, raises an error and no earlier
  attempt returns, the call issues at least the next request, and its outcome and number
  of requests are those of the call in which the remote answers request \<open>k\<close> with any
  other reply that does not return (a \<open>processing\<close> state, say): the error only uses up
  the attempt;
  (6) the call never issues more than \<open>n\<close> requests.
\<close>

theorem poll_error_only_from_last_attempt:
  "(k < n - 1 \<and> fst (poll_try (remote reqs) k n cb calls) = Throw e \<longrightarrow>
      pollLoop remote n cb k reqs calls =
        pollLoop remote n cb (k + 1) (reqs + 1) (snd (poll_try (remote reqs) k n cb calls))) \<and>
   (0 < n \<and> fst (poll_try (remote reqs') (n - 1) n cb calls') = Throw e' \<longrightarrow>
      outcome (pollLoop remote n cb (n - 1) reqs' calls') = Inl e' \<and>
      requests (pollLoop remote n cb (n - 1) reqs' calls') = reqs' + 1) \<and>
   (outcome (pollUntilComplete remote n cb) = Inl err \<and> err \<noteq> Error msg_timeout \<longrightarrow>
      0 < n \<and> requests (pollUntilComplete remote n cb) = n \<and>
      fst (poll_try (remote (n - 1)) (n - 1) n cb calls0) = Throw err) \<and>
   (0 < n \<and> (\<forall>i<n - 1. \<forall>res. fst (poll_try (remote i) i n cb []) \<noteq> Return res) \<and>
    fst (poll_try (remote (n - 1)) (n - 1) n cb []) = Throw e4 \<longrightarrow>
      outcome (pollUntilComplete remote n cb) = Inl e4 \<and>
      requests (pollUntilComplete remote n cb) = n) \<and>
   (k5 < n - 1 \<and> (\<forall>i<k5. \<forall>res. fst (poll_try (remote i) i n cb []) \<noteq> Return res) \<and>
    fst (poll_try (remote k5) k5 n cb []) = Throw e5 \<longrightarrow>
      k5 + 2 \<le> requests (pollUntilComplete remote n cb) \<and>
      (\<forall>r'. (\<forall>res. fst (poll_try r' k5 n cb []) \<noteq> Return res) \<longrightarrow>
         outcome (pollUntilComplete (remote(k5 := r')) n cb) =
           outcome (pollUntilComplete remote n cb) \<and>
         requests (pollUntilComplete (remote(k5 := r')) n cb) =
           requests (pollUntilComplete remote n cb))) \<and>
   requests (pollUntilComplete remote n cb) \<le> n"
proof (intro conjI impI allI)
  assume h: "k < n - 1 \<and> fst (poll_try (remote reqs) k n cb calls) = Throw e"
  then have "poll_try (remote reqs) k n cb calls =
      (Throw e, snd (poll_try (remote reqs) k n cb calls))"
    by (metis prod.collapse)
  with h show "pollLoop remote n cb k reqs calls =
        pollLoop remote n cb (k + 1) (reqs + 1) (snd (poll_try (remote reqs) k n cb calls))"
    using pollLoop_throw_retry by blast
next
  assume h: "0 < n \<and> fst (poll_try (remote reqs') (n - 1) n cb calls') = Throw e'"
  then have pt: "poll_try (remote reqs') (n - 1) n cb calls' =
      (Throw e', snd (poll_try (remote reqs') (n - 1) n cb calls'))"
    by (metis prod.collapse)
  from h have "n - 1 < n" by simp
  from pollLoop_throw_last [of "n - 1" n remote reqs' cb calls' e', OF this refl pt]
  show "outcome (pollLoop remote n cb (n - 1) reqs' calls') = Inl e'"
    and "requests (pollLoop remote n cb (n - 1) reqs' calls') = reqs' + 1"
    by simp_all
next
  assume h: "outcome (pollUntilComplete remote n cb) = Inl err \<and> err \<noteq> Error msg_timeout"
  then have "0 < n \<and> requests (pollLoop remote n cb 0 0 []) = 0 + (n - 0) \<and>
      fst (poll_try (remote (0 + (n - 1 - 0))) (n - 1) n cb calls0) = Throw err"
    unfolding pollUntilComplete_def by (intro pollLoop_error_source) blast+
  then show "0 < n" and "requests (pollUntilComplete remote n cb) = n"
    and "fst (poll_try (remote (n - 1)) (n - 1) n cb calls0) = Throw err"
    unfolding pollUntilComplete_def by simp_all
next
  assume h: "0 < n \<and> (\<forall>i<n - 1. \<forall>res. fst (poll_try (remote i) i n cb []) \<noteq> Return res) \<and>
    fst (poll_try (remote (n - 1)) (n - 1) n cb []) = Throw e4"
  then have "outcome (pollUntilComplete remote n cb) = Inl e4 \<and>
      requests (pollUntilComplete remote n cb) = n"
    by (intro run_last_error) blast+
  then show "outcome (pollUntilComplete remote n cb) = Inl e4"
    and "requests (pollUntilComplete remote n cb) = n" by blast+
next
  assume h: "k5 < n - 1 \<and> (\<forall>i<k5. \<forall>res. fst (poll_try (remote i) i n cb []) \<noteq> Return res) \<and>
    fst (poll_try (remote k5) k5 n cb []) = Throw e5"
  then show "k5 + 2 \<le> requests (pollUntilComplete remote n cb)"
    by (intro run_early_error_continues [where e = e5]) blast+
  fix r'
  assume r': "\<forall>res. fst (poll_try r' k5 n cb []) \<noteq> Return res"
  from h have "k5 < n - 1" and "fst (poll_try (remote k5) k5 n cb []) = Throw e5" by blast+
  from run_early_error_as_any_other [where remote = remote and k = k5 and n = n and cb = cb
      and e = e5 and r' = r', OF this r']
  show "outcome (pollUntilComplete (remote(k5 := r')) n cb) =
           outcome (pollUntilComplete remote n cb)"
    and "requests (pollUntilComplete (remote(k5 := r')) n cb) =
           requests (pollUntilComplete remote n cb)" by blast+
next
  from pollLoop_requests_bounds [of 0 0 n remote cb "[]"]
  show "requests (pollUntilComplete remote n cb) \<le> n"
    by (simp add: pollUntilComplete_def)
qed


theorem poll_error_only_from_last_attempt_witness:
  "pollLoop flaky 3 True 0 0 [] = pollLoop flaky 3 True 1 1 [] \<and>
   outcome (pollLoop flaky 3 True 2 2 []) = Inl (Error (u ''last'')) \<and>
   requests (pollLoop flaky 3 True 2 2 []) = 3 \<and>
   outcome (pollUntilComplete flaky 3 True) = Inl (Error (u ''last'')) \<and>
   Error (u ''last'') \<noteq> Error msg_timeout \<and>
   requests (pollUntilComplete flaky 3 True) = 3 \<and>
   fst (poll_try (flaky 2) 2 3 True []) = Throw (Error (u ''last'')) \<and>
   fst (poll_try (flaky 0) 0 3 True []) = Throw (Error (u ''early'')) \<and>
   fst (poll_try (flaky 1) 1 3 True []) = Throw (Error (u ''early'')) \<and>
   2 \<le> requests (pollUntilComplete flaky 3 True) \<and>
   fst (poll_try processing_reply 0 3 True []) = Normal \<and>
   outcome (pollUntilComplete (flaky(0 := processing_reply)) 3 True) =
     outcome (pollUntilComplete flaky 3 True) \<and>
   requests (pollUntilComplete (flaky(0 := processing_reply)) 3 True) =
     requests (pollUntilComplete flaky 3 True)"
proof -
  have t: "poll_try (flaky i) a 3 True [] =
      (Throw (Error (if i < 2 then u ''early'' else u ''last'')), [])" for i a
    by (simp add: poll_try_def queryTask_def flaky_def)
  have ne: "Error (u ''last'') \<noteq> Error msg_timeout"
    by (simp add: u_def msg_timeout_def)
  have pr: "fst (poll_try processing_reply 0 3 True []) = Normal"
    by (simp add: poll_try_def queryTask_def processing_reply_def)
  have early: "\<forall>i<3 - 1. \<forall>res. fst (poll_try (flaky i) i 3 True []) \<noteq> Return res"
    and none: "\<forall>i<0. \<forall>res. fst (poll_try (flaky i) i 3 True []) \<noteq> Return res"
    by (simp_all add: t)
  have lastt: "fst (poll_try (flaky (3 - 1)) (3 - 1) 3 True []) = Throw (Error (u ''last''))"
    by (simp add: t)
  have first: "fst (poll_try (flaky 0) 0 3 True []) = Throw (Error (u ''early''))"
    by (simp add: t)
  note T = poll_error_only_from_last_attempt [where k = 0 and n = 3 and remote = flaky
      and reqs = 0 and cb = True and calls = "[]" and e = "Error (u ''early'')" and reqs' = 2
      and calls' = "[]" and e' = "Error (u ''last'')" and err = "Error (u ''last'')"
      and ?calls0.0 = "[]" and ?e4.0 = "Error (u ''last'')" and ?k5.0 = 0
      and ?e5.0 = "Error (u ''early'')"]
  from T have c1: "pollLoop flaky 3 True 0 0 [] = pollLoop flaky 3 True 1 1 []"
    by (simp add: t del: One_nat_def)
  from T have c2: "outcome (pollLoop flaky 3 True 2 2 []) = Inl (Error (u ''last'')) \<and>
      requests (pollLoop flaky 3 True 2 2 []) = 3"
    by (simp add: t del: One_nat_def)
  have pos: "(0::nat) < 3" by simp
  from T pos early lastt have c4: "outcome (pollUntilComplete flaky 3 True) = Inl (Error (u ''last'')) \<and>
      requests (pollUntilComplete flaky 3 True) = 3"
    by blast
  from T c4 ne have c3: "fst (poll_try (flaky (3 - 1)) (3 - 1) 3 True []) = Throw (Error (u ''last''))"
    by blast
  have lt: "(0::nat) < 3 - 1" by simp
  from T lt none first have c5: "0 + 2 \<le> requests (pollUntilComplete flaky 3 True) \<and>
      (\<forall>r'. (\<forall>res. fst (poll_try r' 0 3 True []) \<noteq> Return res) \<longrightarrow>
         outcome (pollUntilComplete (flaky(0 := r')) 3 True) =
           outcome (pollUntilComplete flaky 3 True) \<and>
         requests (pollUntilComplete (flaky(0 := r')) 3 True) =
           requests (pollUntilComplete flaky 3 True))"
    by blast
  from pr have "\<forall>res. fst (poll_try processing_reply 0 3 True []) \<noteq> Return res" by simp
  with c5 have c6: "outcome (pollUntilComplete (flaky(0 := processing_reply)) 3 True) =
           outcome (pollUntilComplete flaky 3 True) \<and>
         requests (pollUntilComplete (flaky(0 := processing_reply)) 3 True) =
           requests (pollUntilComplete flaky 3 True)"
    by blast
  from c1 c2 c3 c4 c5 c6 ne pr show ?thesis by (simp add: t)
qed


section \<open>Properties of the theme lookup\<close>

lemma js_includes_sublist: "js_includes s q \<longleftrightarrow> sublist q s"
  by (induction s) (simp_all add: sublist_Cons_right)

lemma exact_loop_find: "exact_loop es q = find (\<lambda>t. name t = q) (map snd es)"
  by (induction es q rule: exact_loop.induct) simp_all

lemma fuzzy_loop_find:
  "fuzzy_loop es q = find (\<lambda>t. sublist q (name t) \<or> sublist (name t) q) (map snd es)"
  by (induction es q rule: fuzzy_loop.induct) (simp_all add: js_includes_sublist)

lemma getThemeByName_Some:
  "getThemeByName (Some obj) q =
     (case exact_loop (Object_entries obj) q of
        Some t \<Rightarrow> Some t
      | None \<Rightarrow> fuzzy_loop (Object_entries obj) q)"
  by (simp add: getThemeByName_def)

lemma getThemeByName_entries:
  "getThemeByName (Some obj) q = findTheme_spec (Object_entries obj) q"
  by (simp add: getThemeByName_def findTheme_spec_def exact_loop_find fuzzy_loop_find
      split: option.splits)

lemma Object_entries_no_index:
  "\<forall>k \<in> fst ` set obj. \<not> is_array_index k \<Longrightarrow> Object_entries obj = obj"
proof -
  assume h: "\<forall>k \<in> fst ` set obj. \<not> is_array_index k"
  then have "filter (\<lambda>(k, v). is_array_index k) obj = []"
    by (auto simp: filter_empty_conv)
  moreover from h have "filter (\<lambda>(k, v). \<not> is_array_index k) obj = obj"
    by (auto simp: filter_id_conv)
  ultimately show ?thesis by (simp add: Object_entries_def)
qed

lemma set_Object_entries: "set (Object_entries obj) = set obj"
  by (auto simp: Object_entries_def)

lemma find_Some_holds: "find P xs = Some x \<Longrightarrow> P x"
  by (induction xs) (auto split: if_splits)

lemma exact_preferred:
  assumes "t \<in> snd ` set obj" "name t = q"
  shows "\<exists>t'. getThemeByName (Some obj) q = Some t' \<and> name t' = q"
proof (cases "find (\<lambda>t. name t = q) (map snd (Object_entries obj))")
  case None
  then have "\<forall>x \<in> set (map snd (Object_entries obj)). name x \<noteq> q"
    by (simp only: find_None_iff) blast
  with assms show ?thesis by (auto simp: set_Object_entries)
next
  case (Some t')
  then have "name t' = q" by (rule find_Some_holds)
  with Some show ?thesis by (simp add: getThemeByName_def exact_loop_find)
qed

lemma i1: "is_array_index (u ''1'')"
  by (simp add: is_array_index_def u_def is_digit_def index_value_def)

lemma i2: "\<not> is_array_index (u ''zoo'')"
  by (simp add: is_array_index_def u_def is_digit_def index_value_def)

lemma ents1: "Object_entries numbered_catalog =
   [(u ''1'', plain_theme (u ''park'')), (u ''zoo'', plain_theme (u ''zoo park''))]"
  by (simp add: Object_entries_def numbered_catalog_def i1 i2)


text \<open>
  Claim C8, as stated, fails: the fallback pass does not follow the insertion order of the
  catalog when a theme key is an array index. In the catalog
  \<open>{"zoo": {name: "zoo park"}, "1": {name: "park"}}\<close> the query \<open>ark\<close> has no exact match;
  \<open>Object.entries\<close> lists the key \<open>1\<close> first, so the code returns the theme \<open>park\<close>, while
  the first match in insertion order is \<open>zoo park\<close>.
\<close>

theorem getThemeByName_not_insertion_order:
  "getThemeByName (Some numbered_catalog) (u ''ark'') = Some (plain_theme (u ''park'')) \<and>
   findTheme_spec numbered_catalog (u ''ark'') = Some (plain_theme (u ''zoo park'')) \<and>
   getThemeByName (Some numbered_catalog) (u ''ark'') \<noteq>
     findTheme_spec numbered_catalog (u ''ark'')"
proof -
  have a: "getThemeByName (Some numbered_catalog) (u ''ark'') = Some (plain_theme (u ''park''))"
    unfolding getThemeByName_Some ents1 by (simp add: plain_theme_def u_def)
  have b: "findTheme_spec numbered_catalog (u ''ark'') = Some (plain_theme (u ''zoo park''))"
    by (simp add: findTheme_spec_def numbered_catalog_def plain_theme_def
         js_includes_sublist [symmetric]) (simp add: u_def)
  have "plain_theme (u ''park'') \<noteq> plain_theme (u ''zoo park'')"
    by (simp add: plain_theme_def)
  with a b show ?thesis by simp
qed

lemma getThemeByName_None_iff:
  "getThemeByName (Some obj) q = None \<longleftrightarrow>
     (\<forall>t \<in> snd ` set obj. name t \<noteq> q \<and> \<not> sublist q (name t) \<and> \<not> sublist (name t) q)"
proof -
  let ?es = "map snd (Object_entries obj)"
  have split: "((case a of None \<Rightarrow> b | Some t \<Rightarrow> Some t) = None) = (a = None \<and> b = None)"
    for a b :: "theme option"
    by (cases a) simp_all
  have "getThemeByName (Some obj) q = None \<longleftrightarrow>
      find (\<lambda>t. name t = q) ?es = None \<and>
      find (\<lambda>t. sublist q (name t) \<or> sublist (name t) q) ?es = None"
    unfolding getThemeByName_entries findTheme_spec_def by (rule split)
  also have "\<dots> \<longleftrightarrow> (\<forall>t \<in> set ?es.
      name t \<noteq> q \<and> \<not> sublist q (name t) \<and> \<not> sublist (name t) q)"
    unfolding find_None_iff by blast
  finally show ?thesis by (simp only: set_map set_Object_entries)
qed

text \<open>
  Claim C8, amended. For every loaded catalog and query, \<open>getThemeByName\<close> is the two-pass
  lookup of the spec over the catalog in the order of \<open>Object.entries\<close> (array-index keys
  in ascending numeric order, then the other keys in insertion order): the first theme whose
  name equals the query, else the first theme whose name contains the query or is contained
  in it, else none. When no key is an array index this is the lookup in insertion order.
  A theme whose name equals the query is always preferred to a substring match, and the
  result is none exactly when no theme matches in either way.
\<close>

theorem getThemeByName_two_pass:
  "getThemeByName (Some obj) q = findTheme_spec (Object_entries obj) q \<and>
   ((\<forall>k \<in> fst ` set obj. \<not> is_array_index k) \<longrightarrow>
      getThemeByName (Some obj) q = findTheme_spec obj q) \<and>
   ((\<exists>t \<in> snd ` set obj. name t = q) \<longrightarrow>
      (\<exists>t. getThemeByName (Some obj) q = Some t \<and> name t = q)) \<and>
   (getThemeByName (Some obj) q = None \<longleftrightarrow>
      (\<forall>t \<in> snd ` set obj. name t \<noteq> q \<and> \<not> sublist q (name t) \<and> \<not> sublist (name t) q))"
proof (intro conjI impI)
  show "getThemeByName (Some obj) q = findTheme_spec (Object_entries obj) q"
    by (rule getThemeByName_entries)
next
  assume "\<forall>k \<in> fst ` set obj. \<not> is_array_index k"
  then show "getThemeByName (Some obj) q = findTheme_spec obj q"
    by (simp only: getThemeByName_entries Object_entries_no_index)
next
  assume "\<exists>t \<in> snd ` set obj. name t = q"
  then show "\<exists>t. getThemeByName (Some obj) q = Some t \<and> name t = q"
    using exact_preferred by blast
next
  show "getThemeByName (Some obj) q = None \<longleftrightarrow>
      (\<forall>t \<in> snd ` set obj. name t \<noteq> q \<and> \<not> sublist q (name t) \<and> \<not> sublist (name t) q)"
    by (rule getThemeByName_None_iff)
qed

theorem getThemeByName_two_pass_witness:
  "\<not> is_array_index (u ''zoo'') \<and> \<not> is_array_index (u ''park'') \<and>
   name (plain_theme (u ''park'')) = u ''park'' \<and>
   getThemeByName (Some named_catalog) (u ''park'') = findTheme_spec named_catalog (u ''park'') \<and>
   getThemeByName (Some named_catalog) (u ''park'') = Some (plain_theme (u ''park'')) \<and>
   getThemeByName (Some named_catalog) (u ''ark'') = Some (plain_theme (u ''zoo park''))"
proof -
  have k1: "\<not> is_array_index (u ''zoo'')"
    by (simp add: is_array_index_def u_def is_digit_def index_value_def)
  have k2: "\<not> is_array_index (u ''park'')"
    by (simp add: is_array_index_def u_def is_digit_def index_value_def)
  have keys: "\<forall>k \<in> fst ` set named_catalog. \<not> is_array_index k"
    by (simp add: named_catalog_def k1 k2)
  have nm: "name (plain_theme (u ''park'')) = u ''park''"
    by (simp add: plain_theme_def)
  have ex: "\<exists>t \<in> snd ` set named_catalog. name t = u ''park''"
    by (simp add: named_catalog_def plain_theme_def)
  have ents: "Object_entries named_catalog = named_catalog"
    using keys by (rule Object_entries_no_index)
  have v1: "getThemeByName (Some named_catalog) (u ''park'') = Some (plain_theme (u ''park''))"
    unfolding getThemeByName_Some ents by (simp add: named_catalog_def plain_theme_def u_def)
  have v2: "getThemeByName (Some named_catalog) (u ''ark'') = Some (plain_theme (u ''zoo park''))"
    unfolding getThemeByName_Some ents by (simp add: named_catalog_def plain_theme_def u_def)
  from getThemeByName_two_pass [of named_catalog "u ''park''"] keys ex
  have "getThemeByName (Some named_catalog) (u ''park'') =
      findTheme_spec named_catalog (u ''park'')"
    by blast
  with k1 k2 nm v1 v2 show ?thesis by simp
qed

section \<open>Properties of the conversation manager\<close>

text \<open>
  Claim C9. In state \<open>IDLE\<close> or \<open>GENERATING\<close>, \<open>handleUserInput\<close> raises the error
  \<open>Invalid conversation state\<close> for every input, and \<open>currentTheme\<close>, \<open>currentTitle\<close> and the
  conversation state are what they were before the call.
\<close>

theorem handleUserInput_rejects_idle_generating:
  assumes "state this = IDLE \<or> state this = GENERATING"
  shows "fst (handleUserInput now input (this, ticks)) =
           Inl (Error (u ''Invalid conversation state'')) \<and>
         currentTheme (fst (snd (handleUserInput now input (this, ticks)))) = currentTheme this \<and>
         currentTitle (fst (snd (handleUserInput now input (this, ticks)))) = currentTitle this \<and>
         state (fst (snd (handleUserInput now input (this, ticks)))) = state this"
  using assms by (auto simp: handleUserInput_def addMessage_def)

theorem handleUserInput_rejects_idle_generating_witness:
  "state new_manager = IDLE \<and>
   fst (handleUserInput same_ms (u ''zoo'') (new_manager, 0)) =
     Inl (Error (u ''Invalid conversation state'')) \<and>
   currentTheme (fst (snd (handleUserInput same_ms (u ''zoo'') (new_manager, 0)))) = None \<and>
   currentTitle (fst (snd (handleUserInput same_ms (u ''zoo'') (new_manager, 0)))) = None \<and>
   state (fst (snd (handleUserInput same_ms (u ''zoo'') (new_manager, 0)))) = IDLE"
  using handleUserInput_rejects_idle_generating [of new_manager same_ms "u ''zoo''" 0]
  by (simp add: new_manager_def)

text \<open>
  Claim C10. \<open>handleUserInput\<close> appends the input as a user message before it looks at the
  state: in every state the history after the call begins with the old history followed by
  that message. In state \<open>IDLE\<close> or \<open>GENERATING\<close> the call raises the error
  \<open>Invalid conversation state\<close> and the history is the old one with exactly that one
  message added.
\<close>

theorem handleUserInput_appends_before_dispatch:
  "prefix (messages this @
      [\<lparr>mtype = User, content = input, prompt_text = None,
        msg_id = toString (now ticks), timestamp = now (ticks + 1)\<rparr>])
     (messages (fst (snd (handleUserInput now input (this, ticks))))) \<and>
   (state this = IDLE \<or> state this = GENERATING \<longrightarrow>
      fst (handleUserInput now input (this, ticks)) =
        Inl (Error (u ''Invalid conversation state'')) \<and>
      messages (fst (snd (handleUserInput now input (this, ticks)))) =
        messages this @
          [\<lparr>mtype = User, content = input, prompt_text = None,
            msg_id = toString (now ticks), timestamp = now (ticks + 1)\<rparr>] \<and>
      length (messages (fst (snd (handleUserInput now input (this, ticks))))) =
        length (messages this) + 1)"
  by (cases "state this") (simp_all add: handleUserInput_def addMessage_def Let_def)

theorem handleUserInput_appends_before_dispatch_witness:
  "state (new_manager\<lparr>state := GENERATING\<rparr>) = GENERATING \<and>
   fst (handleUserInput same_ms (u ''zoo'') (new_manager\<lparr>state := GENERATING\<rparr>, 0)) =
     Inl (Error (u ''Invalid conversation state'')) \<and>
   length (messages (fst (snd (handleUserInput same_ms (u ''zoo'')
     (new_manager\<lparr>state := GENERATING\<rparr>, 0))))) = 1"
  using handleUserInput_appends_before_dispatch [of "new_manager\<lparr>state := GENERATING\<rparr>"
      "u ''zoo''" same_ms 0]
  by (simp add: new_manager_def)

text \<open>
  Claim C2. The claim says that the message ids of a session are pairwise distinct. The id
  is \<open>Date.now().toString()\<close>, and the two \<open>addMessage\<close> calls of one \<open>handleUserInput\<close>
  call run back to back. With a clock that reads 1700000000000 during \<open>startConversation\<close>
  and 1700000005000 during the following \<open>handleUserInput\<close>, the user message and the
  system reply get the same id.
\<close>

theorem message_ids_collide_within_one_call:
  "map msg_id (messages (fst (snd (handleUserInput same_ms (u ''zoo'')
       (fst (startConversation same_ms (new_manager, 0))))))) =
     [u ''1700000000000'', u ''1700000005000'', u ''1700000005000''] \<and>
   \<not> distinct (map msg_id (messages (fst (snd (handleUserInput same_ms (u ''zoo'')
       (fst (startConversation same_ms (new_manager, 0))))))))"
proof -
  have a: "toString 1700000000000 = u ''1700000000000''"
    by (simp add: toString.simps u_def)
  have b: "toString 1700000005000 = u ''1700000005000''"
    by (simp add: toString.simps u_def)
  have "map msg_id (messages (fst (snd (handleUserInput same_ms (u ''zoo'')
       (fst (startConversation same_ms (new_manager, 0))))))) =
     [u ''1700000000000'', u ''1700000005000'', u ''1700000005000'']"
    by (simp add: startConversation_def handleUserInput_def addMessage_def new_manager_def
        Let_def same_ms_def a b)
  then show ?thesis by simp
qed

section \<open>Properties of the prompt generator\<close>

text \<open>
  Scanning for a pattern passes over a text in which the pattern cannot start, and
  substitutes where the pattern stands.
\<close>

lemma clash_not_prefix: "clash pat ys \<Longrightarrow> \<not> prefix pat (ys @ rest)"
  by (induction pat ys rule: clash.induct) auto

lemma replaceFrom_skip:
  "all_clash pat xs \<Longrightarrow>
   replaceFrom pat rep S pos (xs @ rest) = xs @ replaceFrom pat rep S (pos + length xs) rest"
proof (induction xs arbitrary: pos)
  case Nil
  then show ?case by simp
next
  case (Cons x xs)
  then have "\<not> prefix pat ((x # xs) @ rest)" by (simp add: clash_not_prefix del: append_Cons)
  then have "replaceFrom pat rep S pos ((x # xs) @ rest) =
      x # replaceFrom pat rep S (pos + 1) (xs @ rest)"
    by (simp add: replaceFrom.simps)
  with Cons show ?case by simp
qed

lemma replaceFrom_skip_end:
  "all_clash pat xs \<Longrightarrow> replaceFrom pat rep S pos xs = xs"
  using replaceFrom_skip [of pat xs rep S pos "[]"] by (simp add: replaceFrom.simps)

lemma replaceFrom_hit:
  "pat \<noteq> [] \<Longrightarrow>
   replaceFrom pat rep S pos (pat @ rest) =
     getSubstitution pat (take pos S) (drop (pos + length pat) S) rep @
     replaceFrom pat rep S (pos + length pat) rest"
  by (cases pat) (simp_all add: replaceFrom.simps)

lemma brace_free_all_clash:
  "starts_brace pat \<Longrightarrow> 0x7B \<notin> set xs \<Longrightarrow> all_clash pat xs"
  by (induction xs) (auto simp: starts_brace_def split: list.splits)

lemma getSubstitution_plain:
  "0x24 \<notin> set rep \<Longrightarrow> getSubstitution m b a rep = rep"
  by (induction m b a rep rule: getSubstitution.induct) auto

lemma match_count_skip:
  "all_clash pat xs \<Longrightarrow> match_count pat (xs @ rest) = match_count pat rest"
proof (induction xs)
  case Nil
  then show ?case by simp
next
  case (Cons x xs)
  then have "\<not> prefix pat ((x # xs) @ rest)" by (simp add: clash_not_prefix del: append_Cons)
  then have "match_count pat ((x # xs) @ rest) = match_count pat (xs @ rest)"
    by (simp add: match_count.simps)
  with Cons show ?case by simp
qed

lemma match_count_skip_end: "all_clash pat xs \<Longrightarrow> match_count pat xs = 0"
  using match_count_skip [of pat xs "[]"] by (simp add: match_count.simps)

lemma match_count_hit:
  "pat \<noteq> [] \<Longrightarrow> match_count pat (pat @ rest) = 1 + match_count pat rest"
  by (cases pat) (simp_all add: match_count.simps)

text \<open>The texts between the placeholders contain neither \<open>{\<close> nor \<open>$\<close>.\<close>

lemma seg_no_brace:
  "0x7B \<notin> set seg0" "0x7B \<notin> set seg1" "0x7B \<notin> set seg2" "0x7B \<notin> set seg3"
  "0x7B \<notin> set seg4" "0x7B \<notin> set seg5" "0x7B \<notin> set seg6" "0x7B \<notin> set seg7"
  "0x7B \<notin> set seg8" "0x7B \<notin> set seg9"
  by (simp_all add: seg0_def seg1_def seg2_def seg3_def seg4_def seg5_def seg6_def seg7_def
      seg8_def seg9_def)

lemma seg_no_dollar:
  "0x24 \<notin> set seg0" "0x24 \<notin> set seg1" "0x24 \<notin> set seg2" "0x24 \<notin> set seg3"
  "0x24 \<notin> set seg4" "0x24 \<notin> set seg5" "0x24 \<notin> set seg6" "0x24 \<notin> set seg7"
  "0x24 \<notin> set seg8" "0x24 \<notin> set seg9"
  by (simp_all add: seg0_def seg1_def seg2_def seg3_def seg4_def seg5_def seg6_def seg7_def
      seg8_def seg9_def)

lemma ph_starts_brace:
  "starts_brace ph_theme" "starts_brace ph_title" "starts_brace ph_characters"
  "starts_brace ph_items" "starts_brace ph_environment"
  by (simp_all add: starts_brace_def ph_theme_def ph_title_def ph_characters_def ph_items_def
      ph_environment_def)

lemma ph_nonempty:
  "ph_theme \<noteq> []" "ph_title \<noteq> []" "ph_characters \<noteq> []" "ph_items \<noteq> []"
  "ph_environment \<noteq> []"
  by (simp_all add: ph_theme_def ph_title_def ph_characters_def ph_items_def
      ph_environment_def)

lemma ph_clash:
  "all_clash ph_theme ph_title" "all_clash ph_theme ph_characters"
  "all_clash ph_theme ph_items" "all_clash ph_theme ph_environment"
  "all_clash ph_title ph_theme" "all_clash ph_title ph_characters"
  "all_clash ph_title ph_items" "all_clash ph_title ph_environment"
  "all_clash ph_characters ph_theme" "all_clash ph_characters ph_title"
  "all_clash ph_characters ph_items" "all_clash ph_characters ph_environment"
  "all_clash ph_items ph_theme" "all_clash ph_items ph_title"
  "all_clash ph_items ph_characters" "all_clash ph_items ph_environment"
  "all_clash ph_environment ph_theme" "all_clash ph_environment ph_title"
  "all_clash ph_environment ph_characters" "all_clash ph_environment ph_items"
  by (simp_all add: ph_theme_def ph_title_def ph_characters_def ph_items_def
      ph_environment_def)

lemmas skip_rules = replaceFrom_skip replaceFrom_skip_end replaceFrom_hit
  brace_free_all_clash seg_no_brace ph_starts_brace ph_nonempty ph_clash getSubstitution_plain

text \<open>The five \<open>replace\<close> calls of lines 339-344, one after the other.\<close>

lemma fill_theme:
  "0x24 \<notin> set t \<Longrightarrow>
   replace_g ph_theme t template =
     seg0 @ t @ seg1 @ ph_title @ seg2 @ t @ seg3 @ t @ seg4 @ t @ seg5 @ t @ seg6 @
     ph_characters @ seg7 @ ph_items @ seg8 @ ph_environment @ seg9"
  unfolding replace_g_def template_def by (simp add: skip_rules)

lemma template_match_counts:
  "match_count ph_theme template = 5"
  "match_count ph_title template = 1"
  "match_count ph_characters template = 1"
  "match_count ph_items template = 1"
  "match_count ph_environment template = 1"
  unfolding template_def
  by (simp_all add: match_count_skip match_count_skip_end match_count_hit
      brace_free_all_clash seg_no_brace ph_starts_brace ph_nonempty ph_clash)


lemma replaceFrom_skip_char:
  "starts_brace pat \<Longrightarrow> c \<noteq> 0x7B \<Longrightarrow>
   replaceFrom pat rep S pos (c # cs) = c # replaceFrom pat rep S (pos + 1) cs"
  by (cases pat) (simp_all add: replaceFrom.simps starts_brace_def)

lemma fill_title:
  "0x7B \<notin> set t \<Longrightarrow> 0x24 \<notin> set title \<Longrightarrow>
   replace_g ph_title title
     (seg0 @ t @ seg1 @ ph_title @ seg2 @ t @ seg3 @ t @ seg4 @ t @ seg5 @ t @ seg6 @
      ph_characters @ seg7 @ ph_items @ seg8 @ ph_environment @ seg9) =
     seg0 @ t @ seg1 @ title @ seg2 @ t @ seg3 @ t @ seg4 @ t @ seg5 @ t @ seg6 @
     ph_characters @ seg7 @ ph_items @ seg8 @ ph_environment @ seg9"
  unfolding replace_g_def by (simp add: skip_rules)

lemma fill_characters:
  "0x7B \<notin> set t \<Longrightarrow> 0x7B \<notin> set title \<Longrightarrow> 0x24 \<notin> set fc \<Longrightarrow>
   replace_g ph_characters fc
     (seg0 @ t @ seg1 @ title @ seg2 @ t @ seg3 @ t @ seg4 @ t @ seg5 @ t @ seg6 @
      ph_characters @ seg7 @ ph_items @ seg8 @ ph_environment @ seg9) =
     seg0 @ t @ seg1 @ title @ seg2 @ t @ seg3 @ t @ seg4 @ t @ seg5 @ t @ seg6 @
     fc @ seg7 @ ph_items @ seg8 @ ph_environment @ seg9"
  unfolding replace_g_def by (simp add: skip_rules)

lemma fill_items:
  "0x7B \<notin> set t \<Longrightarrow> 0x7B \<notin> set title \<Longrightarrow> 0x7B \<notin> set fc \<Longrightarrow> 0x24 \<notin> set fi \<Longrightarrow>
   replace_g ph_items fi
     (seg0 @ t @ seg1 @ title @ seg2 @ t @ seg3 @ t @ seg4 @ t @ seg5 @ t @ seg6 @
      fc @ seg7 @ ph_items @ seg8 @ ph_environment @ seg9) =
     seg0 @ t @ seg1 @ title @ seg2 @ t @ seg3 @ t @ seg4 @ t @ seg5 @ t @ seg6 @
     fc @ seg7 @ fi @ seg8 @ ph_environment @ seg9"
  unfolding replace_g_def by (simp add: skip_rules)

lemma fill_environment:
  "0x7B \<notin> set t \<Longrightarrow> 0x7B \<notin> set title \<Longrightarrow> 0x7B \<notin> set fc \<Longrightarrow> 0x7B \<notin> set fi \<Longrightarrow>
   0x24 \<notin> set fe \<Longrightarrow>
   replace_g ph_environment fe
     (seg0 @ t @ seg1 @ title @ seg2 @ t @ seg3 @ t @ seg4 @ t @ seg5 @ t @ seg6 @
      fc @ seg7 @ fi @ seg8 @ ph_environment @ seg9) =
     seg0 @ t @ seg1 @ title @ seg2 @ t @ seg3 @ t @ seg4 @ t @ seg5 @ t @ seg6 @
     fc @ seg7 @ fi @ seg8 @ fe @ seg9"
  unfolding replace_g_def by (simp add: skip_rules)

lemma fill_template:
  assumes "plain t" "plain title" "0x24 \<notin> set fc" "0x7B \<notin> set fc" "0x24 \<notin> set fi"
    "0x7B \<notin> set fi" "0x24 \<notin> set fe"
  shows "replace_g ph_environment fe (replace_g ph_items fi (replace_g ph_characters fc
           (replace_g ph_title title (replace_g ph_theme t template)))) =
     seg0 @ t @ seg1 @ title @ seg2 @ t @ seg3 @ t @ seg4 @ t @ seg5 @ t @ seg6 @
     fc @ seg7 @ fi @ seg8 @ fe @ seg9"
  using assms unfolding plain_def
  by (simp add: fill_theme fill_title fill_characters fill_items fill_environment)

text \<open>
  Claim C7, amended. \<open>generatePrompt\<close> substitutes five placeholder tokens in the fixed
  template: the theme name, the title and the three formatted lists. The theme-name
  placeholder stands at five places of the template and each of the other four at one; the
  three lists go to three different sections, in the order characters, items, environment.
  Every occurrence of every placeholder is replaced: when the theme, the title and the
  three formatted lists are plain texts, the prompt is the template with each placeholder
  replaced by its text.
\<close>

theorem generatePrompt_fills_template:
  assumes "fv = formatVocabularies (generateVocabulary themes t)"
    and "plain t" and "plain title"
    and "plain (f_characters fv)" and "plain (f_items fv)" and "plain (f_environment fv)"
  shows "generatePrompt themes t title =
           seg0 @ t @ seg1 @ title @ seg2 @ t @ seg3 @ t @ seg4 @ t @ seg5 @ t @ seg6 @
           f_characters fv @ seg7 @ f_items fv @ seg8 @ f_environment fv @ seg9 \<and>
         match_count ph_theme template = 5 \<and> match_count ph_title template = 1 \<and>
         match_count ph_characters template = 1 \<and> match_count ph_items template = 1 \<and>
         match_count ph_environment template = 1"
proof -
  from assms(4-6) have "0x24 \<notin> set (f_characters fv)" "0x7B \<notin> set (f_characters fv)"
    "0x24 \<notin> set (f_items fv)" "0x7B \<notin> set (f_items fv)" "0x24 \<notin> set (f_environment fv)"
    by (simp_all add: plain_def)
  from fill_template [OF assms(2,3) this]
  have "generatePrompt themes t title =
           seg0 @ t @ seg1 @ title @ seg2 @ t @ seg3 @ t @ seg4 @ t @ seg5 @ t @ seg6 @
           f_characters fv @ seg7 @ f_items fv @ seg8 @ f_environment fv @ seg9"
    unfolding generatePrompt_def Let_def assms(1) .
  then show ?thesis by (simp only: template_match_counts simp_thms)
qed


text \<open>
  Claim C7, as stated, fails: the theme-name placeholder stands at five places of the
  template (lines 273, 280, 284, 289 and 294), not at two.
\<close>

theorem template_theme_placeholder_sites:
  "match_count ph_theme template = 5 \<and> match_count ph_theme template \<noteq> 2"
  by (simp add: template_match_counts)

lemma dynamic_formatted:
  "plain (f_characters (formatVocabularies (generateVocabulary None t)))"
  "plain (f_items (formatVocabularies (generateVocabulary None t)))"
  "plain (f_environment (formatVocabularies (generateVocabulary None t)))"
  by (simp_all add: generateVocabulary_def getThemeByName_def generateDynamicVocabulary_def
      formatVocabularies_def formatList_def or_empty_def u_def plain_def)

lemma plain_examples: "plain (u ''zoo'')" "plain (u ''Zoo day'')"
  by (simp_all add: plain_def u_def)

theorem generatePrompt_fills_template_witness:
  "plain (u ''zoo'') \<and> plain (u ''Zoo day'') \<and>
   plain (f_characters (formatVocabularies (generateVocabulary None (u ''zoo'')))) \<and>
   plain (f_items (formatVocabularies (generateVocabulary None (u ''zoo'')))) \<and>
   plain (f_environment (formatVocabularies (generateVocabulary None (u ''zoo'')))) \<and>
   generatePrompt None (u ''zoo'') (u ''Zoo day'') =
     seg0 @ u ''zoo'' @ seg1 @ u ''Zoo day'' @ seg2 @ u ''zoo'' @ seg3 @ u ''zoo'' @ seg4 @
     u ''zoo'' @ seg5 @ u ''zoo'' @ seg6 @
     f_characters (formatVocabularies (generateVocabulary None (u ''zoo''))) @ seg7 @
     f_items (formatVocabularies (generateVocabulary None (u ''zoo''))) @ seg8 @
     f_environment (formatVocabularies (generateVocabulary None (u ''zoo''))) @ seg9"
  using generatePrompt_fills_template [OF refl plain_examples dynamic_formatted [of "u ''zoo''"]]
    plain_examples dynamic_formatted [of "u ''zoo''"]
  by blast

lemma replace_g_keeps_prefix:
  assumes "all_clash pat P" "prefix P s"
  shows "prefix P (replace_g pat rep s)"
proof -
  from assms(2) obtain tail where s: "s = P @ tail" by (auto simp: prefix_def)
  show ?thesis
    unfolding replace_g_def s using replaceFrom_skip [OF assms(1), of rep "P @ tail" 0 tail]
    by simp
qed

text \<open>
  A supporting fact about the title: when the theme and the title are plain texts, the
  prompt begins with the first template section, the theme, the text up to the opening
  title mark, the title as it is, and the text from the closing title mark on, whatever
  the catalog holds.
\<close>

lemma generatePrompt_contains_title:
  assumes "plain t" and "plain title"
  shows "prefix (seg0 @ t @ seg1 @ title @ seg2) (generatePrompt themes t title) \<and>
         last seg1 = 0x300A \<and> hd seg2 = 0x300B"
proof -
  let ?P = "seg0 @ t @ seg1 @ title @ seg2"
  from assms have nb: "0x7B \<notin> set ?P"
    by (simp add: plain_def seg_no_brace)
  have c: "all_clash ph_characters ?P" "all_clash ph_items ?P" "all_clash ph_environment ?P"
    by (rule brace_free_all_clash [OF ph_starts_brace(3) nb],
        rule brace_free_all_clash [OF ph_starts_brace(4) nb],
        rule brace_free_all_clash [OF ph_starts_brace(5) nb])
  from assms have "replace_g ph_title title (replace_g ph_theme t template) =
     seg0 @ t @ seg1 @ title @ seg2 @ t @ seg3 @ t @ seg4 @ t @ seg5 @ t @ seg6 @
     ph_characters @ seg7 @ ph_items @ seg8 @ ph_environment @ seg9"
    by (simp add: plain_def fill_theme fill_title)
  then have "prefix ?P (replace_g ph_title title (replace_g ph_theme t template))"
    by (simp add: prefix_def)
  then have "prefix ?P (generatePrompt themes t title)"
    unfolding generatePrompt_def Let_def
    by (intro replace_g_keeps_prefix [OF c(3)] replace_g_keeps_prefix [OF c(2)]
        replace_g_keeps_prefix [OF c(1)])
  moreover have "last seg1 = 0x300A" by (simp add: seg1_def)
  moreover have "hd seg2 = 0x300B" by (simp add: seg2_def)
  ultimately show ?thesis by blast
qed

lemma generatePrompt_contains_title_example:
  "plain (u ''zoo'') \<and> plain (u ''Zoo day'') \<and>
   prefix (seg0 @ u ''zoo'' @ seg1 @ u ''Zoo day'' @ seg2)
     (generatePrompt None (u ''zoo'') (u ''Zoo day''))"
  using generatePrompt_contains_title [OF plain_examples, of None] plain_examples
  by blast

lemma sublist_count_le: "sublist q s \<Longrightarrow> count_list q a \<le> count_list s a"
  by (auto simp: sublist_def)

text \<open>
  Claim C6. The claim says that the prompt contains the title as it is, also when the title
  has characters that are special to the substitution. The title is passed to \<open>replace\<close>
  as the replacement string, in which \<open>$$\<close> stands for one \<open>$\<close>: for the title \<open>$$\<close>
  (theme \<open>zoo\<close>, catalog not loaded) the prompt has a single \<open>$\<close> between the title marks
  and does not contain \<open>$$\<close> anywhere.
\<close>

theorem generatePrompt_dollar_title:
  "generatePrompt None (u ''zoo'') (u ''$$'') =
     seg0 @ u ''zoo'' @ seg1 @ u ''$'' @ seg2 @ u ''zoo'' @ seg3 @ u ''zoo'' @ seg4 @
     u ''zoo'' @ seg5 @ u ''zoo'' @ seg6 @
     f_characters (formatVocabularies (generateVocabulary None (u ''zoo''))) @ seg7 @
     f_items (formatVocabularies (generateVocabulary None (u ''zoo''))) @ seg8 @
     f_environment (formatVocabularies (generateVocabulary None (u ''zoo''))) @ seg9 \<and>
   \<not> js_includes (generatePrompt None (u ''zoo'') (u ''$$'')) (u ''$$'')"
proof -
  let ?t = "u ''zoo''"
  let ?fv = "formatVocabularies (generateVocabulary None ?t)"
  let ?out = "seg0 @ ?t @ seg1 @ u ''$'' @ seg2 @ ?t @ seg3 @ ?t @ seg4 @
     ?t @ seg5 @ ?t @ seg6 @ f_characters ?fv @ seg7 @ f_items ?fv @ seg8 @
     f_environment ?fv @ seg9"
  have d1: "u ''$'' = [0x24]" and d2: "u ''$$'' = [0x24, 0x24]" by (simp_all add: u_def)
  have zoo: "0x24 \<notin> set ?t" "0x7B \<notin> set ?t"
    using plain_examples(1) by (simp_all add: plain_def)
  have one: "0x7B \<notin> set (u ''$'')" by (simp add: d1)
  have fv: "0x24 \<notin> set (f_characters ?fv)" "0x7B \<notin> set (f_characters ?fv)"
    "0x24 \<notin> set (f_items ?fv)" "0x7B \<notin> set (f_items ?fv)"
    "0x24 \<notin> set (f_environment ?fv)"
    using dynamic_formatted [of ?t] by (simp_all add: plain_def)
  have dollars: "replace_g ph_title (u ''$$'')
     (seg0 @ ?t @ seg1 @ ph_title @ seg2 @ ?t @ seg3 @ ?t @ seg4 @ ?t @ seg5 @ ?t @ seg6 @
      ph_characters @ seg7 @ ph_items @ seg8 @ ph_environment @ seg9) =
     seg0 @ ?t @ seg1 @ u ''$'' @ seg2 @ ?t @ seg3 @ ?t @ seg4 @ ?t @ seg5 @ ?t @ seg6 @
     ph_characters @ seg7 @ ph_items @ seg8 @ ph_environment @ seg9"
    unfolding replace_g_def d1 d2 using zoo by (simp add: skip_rules)
  have out: "generatePrompt None ?t (u ''$$'') = ?out"
    unfolding generatePrompt_def Let_def
    by (simp only: fill_theme [OF zoo(1)] dollars fill_characters [OF zoo(2) one fv(1)]
        fill_items [OF zoo(2) one fv(2) fv(3)] fill_environment [OF zoo(2) one fv(2) fv(4) fv(5)])
  have "count_list ?out 0x24 = 1"
    using zoo fv by (simp add: seg_no_dollar d1)
  moreover have "count_list (u ''$$'') 0x24 = 2" by (simp add: d2)
  ultimately have "\<not> sublist (u ''$$'') ?out"
    using sublist_count_le [of "u ''$$''" ?out "0x24"] by auto
  with out show ?thesis by (simp only: js_includes_sublist simp_thms)
qed


end
